theory Spec2Isabelle
  imports Complex_Main "HOL-Library.AList"
begin

section \<open>Python string operations used by the orchestrator\<close>

text \<open>
  Strings are byte lists: a non-ASCII literal of the source is its UTF-8 encoding.
  Substring search, prefix and suffix tests on UTF-8 bytes agree with the same tests on
  code points, because UTF-8 is self-synchronising.
\<close>

definition startswith :: "string \<Rightarrow> string \<Rightarrow> bool" where
  "startswith s p = (take (length p) s = p)"

definition endswith :: "string \<Rightarrow> string \<Rightarrow> bool" where
  "endswith s x = (length x \<le> length s \<and> drop (length s - length x) s = x)"

text \<open>\<open>contains s sub\<close> is \<^verbatim>\<open>s.find(sub) != -1\<close> (and \<^verbatim>\<open>sub in s\<close>).\<close>

fun contains :: "string \<Rightarrow> string \<Rightarrow> bool" where
  "contains [] sub = (sub = [])"
| "contains (c # cs) sub = (startswith (c # cs) sub \<or> contains cs sub)"

text \<open>
  \<open>split_by sep s\<close> cuts \<open>s\<close> at every character that satisfies \<open>sep\<close>; the result
  is never empty. \<open>split_on c s\<close> is \<^verbatim>\<open>s.split(c)\<close> for a one-character separator.
\<close>

fun split_by :: "('a \<Rightarrow> bool) \<Rightarrow> 'a list \<Rightarrow> 'a list list" where
  "split_by sep [] = [[]]"
| "split_by sep (x # xs) =
     (if sep x then [] # split_by sep xs
      else (case split_by sep xs of
              [] \<Rightarrow> [[x]]
            | w # ws \<Rightarrow> (x # w) # ws))"

definition split_on :: "char \<Rightarrow> string \<Rightarrow> string list" where
  "split_on c s = split_by (\<lambda>x. x = c) s"

text \<open>
  The ASCII white space that \<^verbatim>\<open>str.strip()\<close> removes from the line of a report: tab,
  line feed, vertical tab, form feed, carriage return, the separators 0x1C to 0x1F, and
  space.
\<close>

definition is_space :: "char \<Rightarrow> bool" where
  "is_space c = ((of_char c :: nat) \<in> {9, 10, 11, 12, 13, 28, 29, 30, 31, 32})"

definition strip :: "string \<Rightarrow> string" where
  "strip s = rev (dropWhile is_space (rev (dropWhile is_space s)))"

text \<open>\<open>join_sep sep xs\<close> is \<^verbatim>\<open>sep.join(xs)\<close>.\<close>

fun join_sep :: "string \<Rightarrow> string list \<Rightarrow> string" where
  "join_sep sep [] = []"
| "join_sep sep [x] = x"
| "join_sep sep (x # y # ys) = x @ sep @ join_sep sep (y # ys)"

text \<open>\<^verbatim>\<open>str.lower()\<close> on the ASCII letters (the other bytes are left as they are).\<close>

definition lower_char :: "char \<Rightarrow> char" where
  "lower_char c =
     (case map_of (zip ''ABCDEFGHIJKLMNOPQRSTUVWXYZ'' ''abcdefghijklmnopqrstuvwxyz'') c of
        Some l \<Rightarrow> l
      | None \<Rightarrow> c)"

definition lower :: "string \<Rightarrow> string" where
  "lower s = map lower_char s"

text \<open>\<^verbatim>\<open>posixpath.join(a, b)\<close> of the standard library, for two components.\<close>

definition path_join :: "string \<Rightarrow> string \<Rightarrow> string" where
  "path_join a b =
     (if startswith b ''/'' then b
      else if a = [] \<or> endswith a ''/'' then a @ b
      else a @ ''/'' @ b)"

text \<open>\<^verbatim>\<open>posixpath.basename(p)\<close>: what follows the last slash.\<close>

definition basename :: "string \<Rightarrow> string" where
  "basename p = last (split_on CHR ''/'' p)"

section \<open>Exceptions\<close>

text \<open>
  The human-readable messages of the source are Chinese string literals. Each literal
  handed to \<^verbatim>\<open>_raise_error\<close> is one constructor here, with the values the source
  formats into it as arguments.
\<close>

datatype message =
    MsgPidTimeout               \<comment> \<open>timed out waiting for the server process id\<close>
  | MsgReportMissing "string option"  \<comment> \<open>the report file (named) does not exist\<close>
  | MsgNeedRestart              \<comment> \<open>server fault: the server must be restarted\<close>
  | MsgHeapSpace                \<comment> \<open>server fault: Java heap overflow\<close>
  | MsgIndexFailure             \<comment> \<open>server fault: index failure on a nearly full disk\<close>
  | MsgServerFault              \<comment> \<open>server fault: see the log\<close>
  | MsgTaskTimeout              \<comment> \<open>timed out waiting for the task to finish\<close>
  | MsgServerUpTimeout          \<comment> \<open>timed out waiting for the server to start\<close>
  | MsgCreateRetries nat        \<comment> \<open>project creation exceeded the retry limit\<close>
  | MsgCreateTimeout            \<comment> \<open>timed out waiting for project creation\<close>
  | MsgProfileMissing string    \<comment> \<open>the user's profile file (named) does not exist\<close>
  | MsgText string              \<comment> \<open>any other message\<close>

datatype exn =
    CompileTaskError message
  | AnalyzeTaskError message
  | ConfigError message
  | ClientError string
  | AuthError string
  | ValidationError string
  | ServerError string
  | KeyError string
  | IndexError
  | FileNotFoundError string
  | SameFileError string
  | ConnectionError
  | ValueError
  | OverflowError
  | ZeroDivisionError

text \<open>\<^verbatim>\<open>AuthError\<close> and \<^verbatim>\<open>ValidationError\<close> are subclasses of \<^verbatim>\<open>ClientError\<close>.\<close>

fun is_ValidationError :: "exn \<Rightarrow> bool" where
  "is_ValidationError (ValidationError m) = True"
| "is_ValidationError e = False"

fun is_ClientError :: "exn \<Rightarrow> bool" where
  "is_ClientError (ClientError m) = True"
| "is_ClientError (AuthError m) = True"
| "is_ClientError (ValidationError m) = True"
| "is_ClientError e = False"

section \<open>The orchestrator object and the server model\<close>

datatype model = LOCAL_MODEL | COMMON_MODEL

text \<open>An entry of \<^verbatim>\<open>settings.SQ_LOCAL_USER\<close> or \<^verbatim>\<open>settings.SQ_COMMON_USER\<close>.\<close>

record sq_user =
  u_url :: string
  u_port :: nat
  u_base_path :: string
  u_username :: string
  u_password :: string
  u_projectKey :: string

text \<open>
  What \<^verbatim>\<open>SQAPIHandler.__init__\<close> keeps: the address and the credentials of the
  session. An argument that is not given, or is empty, is the empty string here.
\<close>

record api_handler =
  h_host :: string
  h_port :: nat
  h_base_path :: string
  h_auth :: "(string \<times> string) option"

definition SQAPIHandler :: "string \<Rightarrow> nat \<Rightarrow> string \<Rightarrow> string \<Rightarrow> string \<Rightarrow> string \<Rightarrow> api_handler" where
  "SQAPIHandler host prt bpath usr pwd token =
     \<lparr> h_host = host, h_port = prt, h_base_path = bpath,
       h_auth = (if token \<noteq> [] then Some (token, [])
                 else if usr \<noteq> [] \<and> pwd \<noteq> [] then Some (usr, pwd)
                 else None) \<rparr>"

text \<open>
  A process of the operating system as \<^verbatim>\<open>_kill_sonar\<close> sees it: its pid and, unless
  inspecting it raises, its name and command line.
\<close>

type_synonym os_proc = "nat \<times> (string \<times> string list) option"

text \<open>
  The fields of the \<^verbatim>\<open>SonarQube\<close> object that the wait loops, the server start and
  the error path read or write. Two fields are not in the source and only record
  effects: \<open>teardown_log\<close> gets one entry per call of \<^verbatim>\<open>_kill_sonar\<close> (the pid
  whose process family was killed, if one matched), and \<open>switch_calls\<close> counts the
  calls of \<^verbatim>\<open>_use_common_sonarqube\<close>.
\<close>

record sonarqube =
  base_url :: string
  port :: nat
  base_path :: string
  user :: string
  password :: string
  projectKey :: string
  model :: model
  sonar_handle :: api_handler
  timeout :: real
  is_local_up :: bool
  project_id :: string
  teardown_log :: "nat option list"
  switch_calls :: nat

text \<open>\<^verbatim>\<open>SonarQube.__init__\<close>: the run starts on the local endpoint, model LOCAL.\<close>

definition init :: "sq_user \<Rightarrow> string \<Rightarrow> bool \<Rightarrow> sonarqube" where
  "init lu pid windows =
     \<lparr> base_url = u_url lu, port = u_port lu, base_path = u_base_path lu,
       user = u_username lu, password = u_password lu, projectKey = u_projectKey lu,
       model = LOCAL_MODEL,
       sonar_handle =
         (if u_password lu \<noteq> []
          then SQAPIHandler (u_url lu) (u_port lu) (u_base_path lu) (u_username lu)
                 (u_password lu) []
          else SQAPIHandler (u_url lu) (u_port lu) (u_base_path lu) [] [] (u_username lu)),
       timeout = 300,
       is_local_up = windows,
       project_id = pid,
       teardown_log = [],
       switch_calls = 0 \<rparr>"

subsection \<open>Teardown and the error path\<close>

text \<open>
  \<^verbatim>\<open>_kill_sonar\<close>: the first process, in pid order, whose name starts with
  \<^verbatim>\<open>java\<close> (case-insensitively) and whose command line contains
  \<^verbatim>\<open>lib/sonar-application\<close> has its family killed, and the search stops. A process
  whose inspection raises is skipped.
\<close>

fun find_sonar :: "os_proc list \<Rightarrow> nat option" where
  "find_sonar [] = None"
| "find_sonar ((pid, None) # ps) = find_sonar ps"
| "find_sonar ((pid, Some (name, cmdline)) # ps) =
     (if startswith (lower name) ''java''
         \<and> contains (join_sep '' '' cmdline) ''lib/sonar-application''
      then Some pid else find_sonar ps)"

definition kill_sonar :: "os_proc list \<Rightarrow> sonarqube \<Rightarrow> sonarqube" where
  "kill_sonar procs st = st\<lparr>teardown_log := teardown_log st @ [find_sonar procs]\<rparr>"

text \<open>
  \<^verbatim>\<open>_raise_error(msg, err_type)\<close> never returns: the result is the object after the
  teardown attempt, and the exception raised.
\<close>

definition error_of :: "string option \<Rightarrow> message \<Rightarrow> exn" where
  "error_of err_type msg =
     (if err_type = Some ''compile'' then CompileTaskError msg
      else if err_type = Some ''config'' then ConfigError msg
      else AnalyzeTaskError msg)"

definition raise_error :: "os_proc list \<Rightarrow> message \<Rightarrow> string option \<Rightarrow> sonarqube \<Rightarrow> sonarqube \<times> exn" where
  "raise_error procs msg err_type st =
     ((if model st = LOCAL_MODEL then kill_sonar procs st else st), error_of err_type msg)"

subsection \<open>Switching to the common server\<close>

text \<open>
  \<^verbatim>\<open>_use_common_sonarqube\<close>. Both callers test \<^verbatim>\<open>SQ_COMMON_USER\<close> first, so the
  dictionary is an argument here.
\<close>

definition use_common_sonarqube :: "sq_user \<Rightarrow> sonarqube \<Rightarrow> sonarqube" where
  "use_common_sonarqube cu st =
     st\<lparr> model := COMMON_MODEL,
         base_url := u_url cu,
         port := u_port cu,
         base_path := u_base_path cu,
         user := u_username cu,
         password := u_password cu,
         projectKey := u_projectKey cu @ ''_'' @ project_id st,
         sonar_handle :=
           SQAPIHandler (u_url cu) (u_port cu) (u_base_path cu) [] [] (u_username cu),
         is_local_up := True,
         switch_calls := Suc (switch_calls st) \<rparr>"

text \<open>The known-fatal substrings of the local server's log, in the order of the source.\<close>

definition fatal_signatures :: "string list" where
  "fatal_signatures =
     [ ''app[][o.s.a.SchedulerImpl] SonarQube is stopped'',
       [CHR 0xE9, CHR 0x94, CHR 0x99, CHR 0xE8, CHR 0xAF, CHR 0xAF] @ '': '' @
         [CHR 0xE6, CHR 0x89, CHR 0xBE, CHR 0xE4, CHR 0xB8, CHR 0x8D, CHR 0xE5, CHR 0x88,
          CHR 0xB0, CHR 0xE6, CHR 0x88, CHR 0x96, CHR 0xE6, CHR 0x97, CHR 0xA0, CHR 0xE6,
          CHR 0xB3, CHR 0x95, CHR 0xE5, CHR 0x8A, CHR 0xA0, CHR 0xE8, CHR 0xBD, CHR 0xBD,
          CHR 0xE4, CHR 0xB8, CHR 0xBB, CHR 0xE7, CHR 0xB1, CHR 0xBB] @
         '' org.sonar.application.App'',
       ''sudo: pam_open_session: Permission denied'',
       ''sudo: pam_open_session'' @
         [CHR 0xEF, CHR 0xBC, CHR 0x9A, CHR 0xE6, CHR 0x8B, CHR 0x92, CHR 0xE7, CHR 0xBB,
          CHR 0x9D, CHR 0xE6, CHR 0x9D, CHR 0x83, CHR 0xE9, CHR 0x99, CHR 0x90],
       ''java.lang.IllegalStateException: SonarQube requires Java 11 to run'',
       ''sudo: sorry, you must have a tty to run sudo'',
       ''sudo'' @
         [CHR 0xEF, CHR 0xBC, CHR 0x9A, CHR 0xE6, CHR 0x8A, CHR 0xB1, CHR 0xE6, CHR 0xAD,
          CHR 0x89, CHR 0xEF, CHR 0xBC, CHR 0x8C, CHR 0xE6, CHR 0x82, CHR 0xA8, CHR 0xE5,
          CHR 0xBF, CHR 0x85, CHR 0xE9, CHR 0xA1, CHR 0xBB, CHR 0xE6, CHR 0x8B, CHR 0xA5,
          CHR 0xE6, CHR 0x9C, CHR 0x89, CHR 0xE4, CHR 0xB8, CHR 0x80, CHR 0xE4, CHR 0xB8,
          CHR 0xAA, CHR 0xE7, CHR 0xBB, CHR 0x88, CHR 0xE7, CHR 0xAB, CHR 0xAF, CHR 0xE6,
          CHR 0x9D, CHR 0xA5, CHR 0xE6, CHR 0x89, CHR 0xA7, CHR 0xE8, CHR 0xA1, CHR 0x8C] @
         '' sudo'',
       ''org.elasticsearch.cluster.block.ClusterBlockException: blocked by: [FORBIDDEN/12/index read-only / allow delete (api)];'',
       ''sudoers.so must be only be writable by owner'',
       ''fatal error, unable to load plugins'' ]"

text \<open>
  \<^verbatim>\<open>_start_sonarqube(line)\<close>, the callback of the local server's output stream; \<open>common\<close>
  is \<^verbatim>\<open>SQ_COMMON_USER\<close> (\<open>None\<close> when the settings leave it unset).
\<close>

definition start_sonarqube :: "sq_user option \<Rightarrow> string \<Rightarrow> sonarqube \<Rightarrow> sonarqube" where
  "start_sonarqube common line st =
     (if list_ex (contains line) fatal_signatures
      then (case common of Some cu \<Rightarrow> use_common_sonarqube cu st | None \<Rightarrow> st)
      else if contains line ''SonarQube is up'' then st\<lparr>is_local_up := True\<rparr>
      else st)"

text \<open>The reader thread hands the lines to the callback one by one, in arrival order.\<close>

definition feed :: "sq_user option \<Rightarrow> string list \<Rightarrow> sonarqube \<Rightarrow> sonarqube" where
  "feed common lines st = foldl (\<lambda>s l. start_sonarqube common l s) st lines"

subsection \<open>The settings\<close>

text \<open>
  \<^verbatim>\<open>settings.SQ_LOCAL_USER\<close> as the repository ships it. \<^verbatim>\<open>settings.SQ_COMMON_USER\<close> is
  shipped as \<^verbatim>\<open>None\<close> and is filled in by an installation that has a shared server;
  \<open>a_common_user\<close> is such an entry.
\<close>

definition SQ_LOCAL_USER :: sq_user where
  "SQ_LOCAL_USER =
     \<lparr> u_url = ''http://localhost'', u_port = 9000, u_base_path = [],
       u_username = ''admin'', u_password = ''admin'', u_projectKey = ''test'' \<rparr>"

definition a_common_user :: sq_user where
  "a_common_user =
     \<lparr> u_url = ''http://sq'', u_port = 9000, u_base_path = [],
       u_username = ''token'', u_password = [], u_projectKey = ''shared'' \<rparr>"

section \<open>The transport layer\<close>

text \<open>
  An HTTP response as \<^verbatim>\<open>SQAPIHandler._request\<close> and its callers read it: the status
  code, the reason phrase, the \<^verbatim>\<open>msg\<close> fields of the \<^verbatim>\<open>errors\<close> list of the JSON
  body (\<open>None\<close> when the body has no such list), and the part of the JSON body that the
  calling endpoint method reads.
\<close>

record 'b http_response =
  status_code :: int
  reason :: string
  errors :: "string list option"
  body :: 'b

text \<open>
  \<^verbatim>\<open>_request\<close>, after the session's call has produced the response. A 400 response
  whose body has no error list raises from the body access, not as a client error.
\<close>

definition request :: "'b http_response \<Rightarrow> exn + 'b http_response" where
  "request res =
     (if status_code res < 300 then Inr res
      else if status_code res = 400 then
        (case errors res of
           Some msgs \<Rightarrow> Inl (ValidationError (join_sep '', '' msgs))
         | None \<Rightarrow> Inl (KeyError ''errors''))
      else if status_code res = 401 \<or> status_code res = 403 then Inl (AuthError (reason res))
      else if status_code res < 500 then Inl (ClientError (reason res))
      else Inl (ServerError (reason res)))"

text \<open>
  An endpoint method called once: the session's call either raises (no connection, say) or
  produces a response, which \<^verbatim>\<open>_request\<close> classifies.
\<close>

definition call :: "exn + 'b http_response \<Rightarrow> exn + 'b http_response" where
  "call r = (case r of Inl e \<Rightarrow> Inl e | Inr res \<Rightarrow> request res)"

section \<open>The wait loops\<close>

text \<open>
  Each loop is run against a script of what its surroundings do during one iteration: the
  lines of the local server's output that the reader thread has passed to the callback
  since the previous iteration, the outcome of the iteration's one server call, and the
  reading of the clock at the iteration's deadline test. A loop that is still waiting when
  the script ends has the outcome \<open>Waiting\<close>.
\<close>

record 'b tick =
  log :: "string list"
  reply :: "exn + 'b http_response"
  now :: real

datatype 'a outcome = Returns 'a | Raises exn | Waiting

definition raised :: "sonarqube \<times> exn \<Rightarrow> sonarqube \<times> 'a outcome" where
  "raised r = (fst r, Raises (snd r))"

subsection \<open>Waiting for the server\<close>

text \<open>
  One iteration of \<^verbatim>\<open>_wait_until_sonarqube_on\<close>: the status poll (any exception makes
  \<^verbatim>\<open>is_server_up\<close> false, a body without \<^verbatim>\<open>status\<close> reads as \<^verbatim>\<open>DOWN\<close>), then the
  deadline test. The result is the new \<^verbatim>\<open>is_server_up\<close>, or the exception raised.
\<close>

definition server_up_step ::
  "os_proc list \<Rightarrow> real \<Rightarrow> string option tick \<Rightarrow> sonarqube \<Rightarrow> sonarqube \<times> (exn + bool)" where
  "server_up_step procs deadline e st =
     (let is_server_up =
            (case call (reply e) of
               Inl x \<Rightarrow> False
             | Inr res \<Rightarrow> (case body res of Some s \<Rightarrow> s = ''UP'' | None \<Rightarrow> ''DOWN'' = ''UP''))
      in if deadline < now e
         then (fst (raise_error procs MsgServerUpTimeout (Some ''analyze'') st),
               Inl (snd (raise_error procs MsgServerUpTimeout (Some ''analyze'') st)))
         else (st, Inr is_server_up))"

text \<open>
  The loop, entered with \<^verbatim>\<open>is_server_up\<close> as given; it returns the number of status
  polls made with the outcome.
\<close>

fun server_up_loop ::
  "sq_user option \<Rightarrow> os_proc list \<Rightarrow> real \<Rightarrow> bool \<Rightarrow> string option tick list \<Rightarrow> sonarqube
     \<Rightarrow> sonarqube \<times> nat \<times> unit outcome" where
  "server_up_loop common procs deadline is_server_up [] st =
     (if \<not> is_server_up \<or> \<not> is_local_up st then (st, 0, Waiting) else (st, 0, Returns ()))"
| "server_up_loop common procs deadline is_server_up (e # es) st =
     (if \<not> is_server_up \<or> \<not> is_local_up st then
        (case server_up_step procs deadline e (feed common (log e) st) of
           (st', Inl x) \<Rightarrow> (st', 1, Raises x)
         | (st', Inr up) \<Rightarrow>
             (case server_up_loop common procs deadline up es st' of
                (st'', n, out) \<Rightarrow> (st'', Suc n, out)))
      else (st, 0, Returns ()))"

text \<open>The status poll of a script entry answers \<^verbatim>\<open>{"status": "UP"}\<close>.\<close>

definition polled_up :: "string option tick \<Rightarrow> bool" where
  "polled_up e = (case call (reply e) of Inl x \<Rightarrow> False | Inr res \<Rightarrow> body res = Some ''UP'')"

text \<open>\<^verbatim>\<open>_wait_until_sonarqube_on\<close>, entered when the clock reads \<open>t0\<close>.\<close>

definition wait_until_sonarqube_on ::
  "sq_user option \<Rightarrow> os_proc list \<Rightarrow> real \<Rightarrow> string option tick list \<Rightarrow> sonarqube
     \<Rightarrow> sonarqube \<times> nat \<times> unit outcome" where
  "wait_until_sonarqube_on common procs t0 es st =
     server_up_loop common procs (t0 + timeout st) False es st"

subsection \<open>Creating the project\<close>

text \<open>
  \<^verbatim>\<open>_wait_until_project_create\<close>. A validation error counts as created; any other client
  error is retried after a sleep; every other exception propagates. The retry limit and
  the deadline are tested in every iteration, also in the one that created the project.
  The result lists the project keys the creation was called with.
\<close>

definition retry_times :: nat where
  "retry_times = 5"

fun project_create_loop ::
  "sq_user option \<Rightarrow> os_proc list \<Rightarrow> real \<Rightarrow> nat \<Rightarrow> unit tick list \<Rightarrow> sonarqube
     \<Rightarrow> sonarqube \<times> string list \<times> unit outcome" where
  "project_create_loop common procs deadline cnt [] st = (st, [], Waiting)"
| "project_create_loop common procs deadline cnt (e # es) st =
     (let st1 = feed common (log e) st;
          cnt1 = Suc cnt;
          r = call (reply e)
      in case r of
           Inl x \<Rightarrow>
             if is_ClientError x then
               (if retry_times < cnt1 then
                  (fst (raise_error procs (MsgCreateRetries retry_times) (Some ''analyze'') st1),
                   [projectKey st1],
                   Raises (snd (raise_error procs (MsgCreateRetries retry_times) (Some ''analyze'') st1)))
                else if deadline < now e then
                  (fst (raise_error procs MsgCreateTimeout (Some ''analyze'') st1),
                   [projectKey st1],
                   Raises (snd (raise_error procs MsgCreateTimeout (Some ''analyze'') st1)))
                else if is_ValidationError x then (st1, [projectKey st1], Returns ())
                else (case project_create_loop common procs deadline cnt1 es st1 of
                        (st2, keys, out) \<Rightarrow> (st2, projectKey st1 # keys, out)))
             else (st1, [projectKey st1], Raises x)
         | Inr res \<Rightarrow>
             if retry_times < cnt1 then
               (fst (raise_error procs (MsgCreateRetries retry_times) (Some ''analyze'') st1),
                [projectKey st1],
                Raises (snd (raise_error procs (MsgCreateRetries retry_times) (Some ''analyze'') st1)))
             else if deadline < now e then
               (fst (raise_error procs MsgCreateTimeout (Some ''analyze'') st1),
                [projectKey st1],
                Raises (snd (raise_error procs MsgCreateTimeout (Some ''analyze'') st1)))
             else (st1, [projectKey st1], Returns ()))"

definition wait_until_project_create ::
  "sq_user option \<Rightarrow> os_proc list \<Rightarrow> real \<Rightarrow> unit tick list \<Rightarrow> sonarqube
     \<Rightarrow> sonarqube \<times> string list \<times> unit outcome" where
  "wait_until_project_create common procs t0 es st =
     project_create_loop common procs (t0 + timeout st) 0 es st"

subsection \<open>Waiting for the compute task\<close>

text \<open>The \<^verbatim>\<open>task\<close> object of the compute-task endpoint's answer.\<close>

record task =
  t_status :: string
  t_errorMessage :: "string option"

text \<open>
  The pattern of the first failure class,
  \<^verbatim>\<open>load called twice for thread '.*' or state wasn't cleared last time it was used\<close>,
  matched by \<^verbatim>\<open>re.match\<close> with \<^verbatim>\<open>re.I\<close>: anchored at the start only, letters compared
  without case, and the dot matching any character but a line feed.
\<close>

definition restart_head :: string where
  "restart_head = ''load called twice for thread '' @ [CHR 0x27]"

definition restart_tail :: string where
  "restart_tail =
     [CHR 0x27] @ '' or state wasn'' @ [CHR 0x27] @ ''t cleared last time it was used''"

fun dot_star_then :: "string \<Rightarrow> string \<Rightarrow> bool" where
  "dot_star_then p [] = startswith [] (lower p)"
| "dot_star_then p (c # cs) =
     (startswith (lower (c # cs)) (lower p) \<or> (c \<noteq> CHR 0x0A \<and> dot_star_then p cs))"

definition restart_match :: "string \<Rightarrow> bool" where
  "restart_match em =
     (startswith (lower em) (lower restart_head)
      \<and> dot_star_then restart_tail (drop (length restart_head) em))"

text \<open>The message of the error raised for a FAILED task, by its error message.\<close>

definition classify_failed :: "string \<Rightarrow> message" where
  "classify_failed em =
     (if restart_match em then MsgNeedRestart
      else if ''Java heap space'' = em then MsgHeapSpace
      else if ''Unrecoverable indexation failures: 1 errors among 1 requests'' = em
        then MsgIndexFailure
      else MsgServerFault)"

text \<open>
  One iteration of the loop of \<^verbatim>\<open>_wait_until_task_succeed\<close>: the query (an exception
  leaves \<^verbatim>\<open>res\<close> unset and \<^verbatim>\<open>is_success\<close> false), the classification of a FAILED
  task, then the deadline test. \<open>Waiting\<close> means that the loop goes on.
\<close>

definition task_deadline ::
  "os_proc list \<Rightarrow> real \<Rightarrow> task tick \<Rightarrow> bool \<Rightarrow> sonarqube \<Rightarrow> sonarqube \<times> unit outcome" where
  "task_deadline procs deadline e is_success st =
     (if deadline < now e then raised (raise_error procs MsgTaskTimeout (Some ''analyze'') st)
      else (st, if is_success then Returns () else Waiting))"

definition task_step ::
  "os_proc list \<Rightarrow> real \<Rightarrow> task tick \<Rightarrow> sonarqube \<Rightarrow> sonarqube \<times> unit outcome" where
  "task_step procs deadline e st =
     (case call (reply e) of
        Inl x \<Rightarrow> task_deadline procs deadline e False st
      | Inr res \<Rightarrow>
          if t_status (body res) = ''FAILED'' then
            (case t_errorMessage (body res) of
               None \<Rightarrow> (st, Raises (KeyError ''errorMessage''))
             | Some em \<Rightarrow> raised (raise_error procs (classify_failed em) (Some ''analyze'') st))
          else task_deadline procs deadline e (t_status (body res) = ''SUCCESS'') st)"

text \<open>
  What a script entry's query answers: nothing final yet (the query failed, or the status
  is neither SUCCESS nor FAILED), the status SUCCESS, or FAILED with an error message.
\<close>

definition task_pending :: "task tick \<Rightarrow> bool" where
  "task_pending e =
     (case call (reply e) of
        Inl x \<Rightarrow> True
      | Inr res \<Rightarrow> t_status (body res) \<noteq> ''SUCCESS'' \<and> t_status (body res) \<noteq> ''FAILED'')"

definition task_succeeded :: "task tick \<Rightarrow> bool" where
  "task_succeeded e =
     (case call (reply e) of Inl x \<Rightarrow> False | Inr res \<Rightarrow> t_status (body res) = ''SUCCESS'')"

definition task_failed_with :: "string \<Rightarrow> task tick \<Rightarrow> bool" where
  "task_failed_with em e =
     (case call (reply e) of
        Inl x \<Rightarrow> False
      | Inr res \<Rightarrow> t_status (body res) = ''FAILED'' \<and> t_errorMessage (body res) = Some em)"

text \<open>The loop; it returns the identifiers the endpoint was queried with.\<close>

fun task_loop ::
  "sq_user option \<Rightarrow> os_proc list \<Rightarrow> string \<Rightarrow> real \<Rightarrow> task tick list \<Rightarrow> sonarqube
     \<Rightarrow> sonarqube \<times> string list \<times> unit outcome" where
  "task_loop common procs ident deadline [] st = (st, [], Waiting)"
| "task_loop common procs ident deadline (e # es) st =
     (case task_step procs deadline e (feed common (log e) st) of
        (st', Waiting) \<Rightarrow>
          (case task_loop common procs ident deadline es st' of
             (st'', ids, out) \<Rightarrow> (st'', ident # ids, out))
      | (st', out) \<Rightarrow> (st', [ident], out))"

text \<open>
  The task identifier of a report: the fifth line, stripped, after its last \<^verbatim>\<open>=\<close>. The
  report is given as \<^verbatim>\<open>readlines()\<close> gives it, every line with its line end.
\<close>

definition task_id :: "string list \<Rightarrow> exn + string" where
  "task_id lines =
     (if length lines \<le> 4 then Inl IndexError
      else Inr (last (split_on CHR ''='' (strip (lines ! 4)))))"

text \<open>
  \<^verbatim>\<open>_wait_until_task_succeed\<close>, entered when the clock reads \<open>t0\<close>; \<open>files\<close> maps the
  paths of the existing text files to their lines.
\<close>

definition wait_until_task_succeed ::
  "sq_user option \<Rightarrow> os_proc list \<Rightarrow> (string \<rightharpoonup> string list) \<Rightarrow> string option \<Rightarrow> real
     \<Rightarrow> task tick list \<Rightarrow> sonarqube \<Rightarrow> sonarqube \<times> string list \<times> unit outcome" where
  "wait_until_task_succeed common procs files sonar_report t0 es st =
     (case (case sonar_report of
              None \<Rightarrow> None
            | Some p \<Rightarrow> if p = [] then None else files p) of
        None \<Rightarrow>
          (fst (raise_error procs (MsgReportMissing sonar_report) (Some ''analyze'') st), [],
           Raises (snd (raise_error procs (MsgReportMissing sonar_report) (Some ''analyze'') st)))
      | Some lines \<Rightarrow>
          (case task_id lines of
             Inl x \<Rightarrow> (st, [], Raises x)
           | Inr ident \<Rightarrow> task_loop common procs ident (t0 + timeout st) es st))"

subsection \<open>Script entries of the examples\<close>

text \<open>
  A script entry with no server output, whose call is answered by a 200 response with the
  given body, or by a response with the given status code and error list; \<open>t\<close> is the
  clock's reading at the deadline test.
\<close>

definition answer :: "'b \<Rightarrow> real \<Rightarrow> 'b tick" where
  "answer b t =
     \<lparr> log = [],
       reply = Inr \<lparr> status_code = 200, reason = ''OK'', errors = None, body = b \<rparr>,
       now = t \<rparr>"

definition refusal :: "int \<Rightarrow> string list \<Rightarrow> 'b \<Rightarrow> real \<Rightarrow> 'b tick" where
  "refusal code msgs b t =
     \<lparr> log = [],
       reply = Inr \<lparr> status_code = code, reason = ''Error'', errors = Some msgs, body = b \<rparr>,
       now = t \<rparr>"

text \<open>
  A report as the scanner writes it, given as its lines; the task identifier is on the
  fifth line.
\<close>

definition a_report :: "string list" where
  "a_report =
     [ ''projectKey=test'' @ [CHR 0x0A],
       ''serverUrl=http://localhost:9000'' @ [CHR 0x0A],
       ''serverVersion=8.9.8.54436'' @ [CHR 0x0A],
       ''dashboardUrl=http://localhost:9000/dashboard?id=test'' @ [CHR 0x0A],
       ''ceTaskId=AX1'' @ [CHR 0x0A],
       ''ceTaskUrl=http://localhost:9000/api/ce/task?id=AX1'' @ [CHR 0x0A] ]"

section \<open>Quality profiles\<close>

text \<open>
  A profile document, as the schema of the backup file has it: the profile's name (the
  root's first child), its language (the second child) and the \<^verbatim>\<open>rule\<close> elements, each
  with a repository key, a key and a list of \<^verbatim>\<open>parameter\<close> elements of a key and a
  value. Other children of a rule are not touched by the source and are left out. A file
  that does not follow the schema makes the source raise from the element access; such
  files are outside this type.
\<close>

record parameter =
  p_key :: string
  p_value :: string

record rule =
  r_repositoryKey :: string
  r_key :: string
  r_parameters :: "parameter list"

record profile =
  pr_name :: string
  pr_language :: string
  pr_rules :: "rule list"

text \<open>An entry of the request's \<^verbatim>\<open>rule_list\<close>; \<^verbatim>\<open>params\<close> may be null.\<close>

record rule_info =
  ri_name :: string
  ri_params :: "string option"

text \<open>The environment variables that the modelled functions read.\<close>

record envs =
  SOURCE_DIR :: string
  BUILD_CWD :: "string option"
  SONAR_QUALITYPROFILE_TYPE :: "string option"
  SONAR_QUALITYPROFILE :: "string option"

definition COMMON_SONAR_LANGS :: "string list" where
  "COMMON_SONAR_LANGS =
     [''cs'', ''java'', ''jsp'', ''vbnet'', ''css'', ''flex'', ''go'', ''js'', ''kotlin'',
      ''php'', ''py'', ''ruby'', ''scala'', ''ts'', ''web'', ''xml'']"

text \<open>The repository-qualified key of a rule, \<^verbatim>\<open>"%s:%s" % (repositoryKey, key)\<close>.\<close>

definition real_name :: "rule \<Rightarrow> string" where
  "real_name r = r_repositoryKey r @ '':'' @ r_key r"

text \<open>
  The loop over the \<^verbatim>\<open>parameter\<close> elements of a rule: a parameter whose key is in the
  dictionary gets the dictionary's value. The dictionary is an association list; the
  options of a section of a configuration are distinct.
\<close>

fun apply_overrides :: "(string \<times> string) list \<Rightarrow> parameter list \<Rightarrow> parameter list" where
  "apply_overrides d [] = []"
| "apply_overrides d (p # ps) =
     (case map_of d (p_key p) of
        Some v \<Rightarrow> p\<lparr>p_value := v\<rparr>
      | None \<Rightarrow> p) # apply_overrides d ps"

text \<open>The first entry of \<^verbatim>\<open>rule_list\<close> with the rule's name gives \<^verbatim>\<open>rule_param\<close>.\<close>

fun find_rule_param :: "rule_info list \<Rightarrow> string \<Rightarrow> string option" where
  "find_rule_param [] n = None"
| "find_rule_param (ri # ris) n =
     (if ri_name ri = n then ri_params ri else find_rule_param ris n)"

text \<open>The text handed to the configuration reader: a section header is put in front.\<close>

definition with_section :: "string \<Rightarrow> string" where
  "with_section rule_param =
     (if \<not> contains rule_param ''[sq]'' then ''[sq]'' @ [CHR 0x0A] @ rule_param
      else rule_param)"

text \<open>
  One round of the loop over the rules of a document. \<open>None\<close>: the rule goes to
  \<^verbatim>\<open>removed_rules\<close>. \<open>cfg\<close> is \<^verbatim>\<open>ConfigReader(cfg_string=...).read("sq")\<close>, the
  standard library's parser behind it: the options of the section, or the exception it
  raises.
\<close>

definition process_rule ::
  "(string \<Rightarrow> exn + (string \<times> string) list) \<Rightarrow> string list \<Rightarrow> rule_info list \<Rightarrow> rule
     \<Rightarrow> exn + rule option" where
  "process_rule cfg rules rule_list r =
     (if real_name r \<notin> set rules then Inr None
      else (case find_rule_param rule_list (real_name r) of
              None \<Rightarrow> Inr (Some r)
            | Some rule_param \<Rightarrow>
                if rule_param = [] then Inr (Some r)
                else (case cfg (with_section rule_param) of
                        Inl x \<Rightarrow> Inl x
                      | Inr rule_params_dict \<Rightarrow>
                          if rule_params_dict = [] then Inr (Some r)
                          else Inr (Some (r\<lparr>r_parameters :=
                                  apply_overrides rule_params_dict (r_parameters r)\<rparr>)))))"

text \<open>
  The loop over all rules, with the removal that follows it: the rules that stay, in
  document order. An exception leaves the file unwritten.
\<close>

fun process_rules ::
  "(string \<Rightarrow> exn + (string \<times> string) list) \<Rightarrow> string list \<Rightarrow> rule_info list \<Rightarrow> rule list
     \<Rightarrow> exn + rule list" where
  "process_rules cfg rules rule_list [] = Inr []"
| "process_rules cfg rules rule_list (r # rs) =
     (case process_rule cfg rules rule_list r of
        Inl x \<Rightarrow> Inl x
      | Inr kept \<Rightarrow>
          (case process_rules cfg rules rule_list rs of
             Inl x \<Rightarrow> Inl x
           | Inr rs' \<Rightarrow> Inr (case kept of None \<Rightarrow> rs' | Some r' \<Rightarrow> r' # rs')))"

subsection \<open>Gathering the documents\<close>

text \<open>
  The profile files are a map from paths to documents. \<^verbatim>\<open>get_dir_files\<close> walks a
  directory; the walk is given as the (directory, file name) pairs it visits. The source
  collects the matches in a set, whose order of iteration is not fixed: the order of the
  walk stands for it.
\<close>

type_synonym profiles = "string \<rightharpoonup> profile"

definition get_dir_files :: "(string \<times> string) list \<Rightarrow> string \<Rightarrow> string list" where
  "get_dir_files walk want_suffix =
     remdups (map (\<lambda>(dirpath, f). path_join dirpath f)
                  (filter (\<lambda>(dirpath, f). endswith (lower f) want_suffix) walk))"

definition copyfile :: "string \<Rightarrow> string \<Rightarrow> profiles \<Rightarrow> exn + profiles" where
  "copyfile src dst files =
     (case files src of
        None \<Rightarrow> Inl (FileNotFoundError src)
      | Some doc \<Rightarrow> if src = dst then Inl (SameFileError src) else Inr (files(dst \<mapsto> doc)))"

text \<open>\<^verbatim>\<open>_get_profile_info\<close>: the language and the name of the document at a path.\<close>

definition get_profile_info :: "profiles \<Rightarrow> string \<Rightarrow> exn + (string \<times> string)" where
  "get_profile_info files path =
     (case files path of
        None \<Rightarrow> Inl (FileNotFoundError path)
      | Some doc \<Rightarrow> Inr (pr_language doc, pr_name doc))"

definition default_suffix :: string where
  "default_suffix = lower ''_SonarQube_Profile.xml''"

text \<open>
  The three loops that fill \<^verbatim>\<open>qualityprofile_filepaths\<close>, a dictionary from languages to
  paths kept in insertion order. Each returns the files and the dictionary as they are
  when it ends, and the exception that ended it, if one did.
\<close>

type_synonym filepaths = "(string \<times> string) list"

fun default_stage ::
  "model \<Rightarrow> string \<Rightarrow> string list \<Rightarrow> profiles \<Rightarrow> filepaths
     \<Rightarrow> profiles \<times> filepaths \<times> exn option" where
  "default_stage m profiles_path [] files paths = (files, paths, None)"
| "default_stage m profiles_path (profile # ps) files paths =
     (let profile_name = basename profile;
          lang = lower (hd (split_on CHR ''_'' profile_name))
      in if (m = LOCAL_MODEL \<or> m = COMMON_MODEL) \<and> lang \<notin> set COMMON_SONAR_LANGS
         then default_stage m profiles_path ps files paths
         else (case copyfile profile (path_join profiles_path profile_name) files of
                 Inl x \<Rightarrow> (files, paths, Some x)
               | Inr files' \<Rightarrow>
                   default_stage m profiles_path ps files'
                     (AList.update lang (path_join profiles_path profile_name) paths)))"

fun type_stage ::
  "string list \<Rightarrow> string \<Rightarrow> string list \<Rightarrow> profiles \<Rightarrow> filepaths
     \<Rightarrow> profiles \<times> filepaths \<times> exn option" where
  "type_stage langs profiles_path [] files paths = (files, paths, None)"
| "type_stage langs profiles_path (path # ps) files paths =
     (case get_profile_info files path of
        Inl x \<Rightarrow> (files, paths, Some x)
      | Inr (lang, name) \<Rightarrow>
          if lang \<notin> set langs then type_stage langs profiles_path ps files paths
          else (case copyfile path (path_join profiles_path (basename path)) files of
                  Inl x \<Rightarrow> (files, paths, Some x)
                | Inr files' \<Rightarrow>
                    type_stage langs profiles_path ps files'
                      (AList.update lang (path_join profiles_path (basename path)) paths)))"

text \<open>
  The loop over the user's own files. A missing file goes through the error path, so the
  object is threaded through.
\<close>

fun user_stage ::
  "os_proc list \<Rightarrow> string list \<Rightarrow> string \<Rightarrow> string list \<Rightarrow> profiles \<Rightarrow> filepaths \<Rightarrow> sonarqube
     \<Rightarrow> sonarqube \<times> filepaths \<times> exn option" where
  "user_stage procs langs source_dir [] files paths st = (st, paths, None)"
| "user_stage procs langs source_dir (path # ps) files paths st =
     (if files (path_join source_dir path) = None
      then (fst (raise_error procs (MsgProfileMissing path) (Some ''config'') st), paths,
            Some (snd (raise_error procs (MsgProfileMissing path) (Some ''config'') st)))
      else (case get_profile_info files (path_join source_dir path) of
              Inl x \<Rightarrow> (st, paths, Some x)
            | Inr (lang, name) \<Rightarrow>
                if lang \<notin> set langs then user_stage procs langs source_dir ps files paths st
                else user_stage procs langs source_dir ps files
                       (AList.update lang (path_join source_dir path) paths) st))"

subsection \<open>Filtering and publishing\<close>

text \<open>
  The loop that rewrites the kept documents: only a path that ends, without regard to
  case, in \<^verbatim>\<open>_SonarQube_Profile.xml\<close> is read, filtered and written back.
\<close>

fun filter_stage ::
  "(string \<Rightarrow> exn + (string \<times> string) list) \<Rightarrow> string list \<Rightarrow> rule_info list \<Rightarrow> filepaths
     \<Rightarrow> profiles \<Rightarrow> profiles \<times> exn option" where
  "filter_stage cfg rules rule_list [] files = (files, None)"
| "filter_stage cfg rules rule_list ((lang, profile_path) # ps) files =
     (if \<not> endswith (lower profile_path) default_suffix
      then filter_stage cfg rules rule_list ps files
      else (case files profile_path of
              None \<Rightarrow> (files, Some (FileNotFoundError profile_path))
            | Some doc \<Rightarrow>
                (case process_rules cfg rules rule_list (pr_rules doc) of
                   Inl x \<Rightarrow> (files, Some x)
                 | Inr rs \<Rightarrow>
                     filter_stage cfg rules rule_list ps
                       (files(profile_path \<mapsto> doc\<lparr>pr_rules := rs\<rparr>)))))"

text \<open>
  What the publishing loop asks of the server: to restore a profile from the document at
  a path, and to associate a project with a profile by language and name.
\<close>

datatype server_call =
    Restore string profile
  | AddProject string string string

text \<open>
  The publishing loop. \<open>server\<close> gives, for each call, what the session's request
  produces; the loop returns the calls it made and the exception that ended it, if one
  did.
\<close>

fun publish_stage ::
  "(server_call \<Rightarrow> exn + unit http_response) \<Rightarrow> string \<Rightarrow> profiles \<Rightarrow> filepaths
     \<Rightarrow> server_call list \<times> exn option" where
  "publish_stage server project_key files [] = ([], None)"
| "publish_stage server project_key files ((lang, path) # ps) =
     (case files path of
        None \<Rightarrow> ([], Some (FileNotFoundError path))
      | Some doc \<Rightarrow>
          (case call (server (Restore path doc)) of
             Inl x \<Rightarrow> ([Restore path doc], Some x)
           | Inr res \<Rightarrow>
               (case call (server (AddProject project_key (lower (pr_language doc)) (pr_name doc))) of
                  Inl x \<Rightarrow>
                    ([Restore path doc,
                      AddProject project_key (lower (pr_language doc)) (pr_name doc)], Some x)
                | Inr res' \<Rightarrow>
                    (case publish_stage server project_key files ps of
                       (calls, x) \<Rightarrow>
                         (Restore path doc
                          # AddProject project_key (lower (pr_language doc)) (pr_name doc)
                          # calls, x)))))"

text \<open>
  The first half of \<^verbatim>\<open>_set_qualityprofiles\<close>: the three loops in the order of the
  source, a later one overwriting the entry of a language. \<open>walk\<close> is the walk of the
  tool's profile directory. The result holds the object, the files, the kept paths and
  the exception raised, if any.
\<close>

definition gather_profiles ::
  "os_proc list \<Rightarrow> (string \<times> string) list \<Rightarrow> envs \<Rightarrow> string \<Rightarrow> string \<Rightarrow> profiles \<Rightarrow> sonarqube
     \<Rightarrow> sonarqube \<times> profiles \<times> filepaths \<times> exn option" where
  "gather_profiles procs walk env work_dir languages files st =
     (let langs = split_on CHR '','' languages;
          profiles_path = path_join work_dir ''profiles''
      in case default_stage (model st) profiles_path (get_dir_files walk default_suffix)
                files [] of
           (files1, paths1, Some x) \<Rightarrow> (st, files1, paths1, Some x)
         | (files1, paths1, None) \<Rightarrow>
         (case (case SONAR_QUALITYPROFILE_TYPE env of
                  None \<Rightarrow> (files1, paths1, None)
                | Some ty \<Rightarrow>
                    type_stage langs profiles_path
                      (get_dir_files walk (lower (''_'' @ ty @ ''.xml''))) files1 paths1) of
            (files2, paths2, Some x) \<Rightarrow> (st, files2, paths2, Some x)
          | (files2, paths2, None) \<Rightarrow>
          (case (case SONAR_QUALITYPROFILE env of
                   None \<Rightarrow> (st, paths2, None)
                 | Some own \<Rightarrow>
                     if own = [] then (st, paths2, None)
                     else user_stage procs langs (SOURCE_DIR env) (split_on CHR '';'' own)
                            files2 paths2 st) of
             (st3, paths3, x) \<Rightarrow> (st3, files2, paths3, x))))"

text \<open>
  \<^verbatim>\<open>_set_qualityprofiles\<close>: the gathering, the filtering of the kept documents and
  their publication. The result holds the object, the files, the kept paths, the calls
  made to the server, and the exception raised, if any.
\<close>

record assembly =
  a_state :: sonarqube
  a_files :: profiles
  a_kept :: filepaths
  a_calls :: "server_call list"
  a_raised :: "exn option"

definition set_qualityprofiles ::
  "(string \<Rightarrow> exn + (string \<times> string) list) \<Rightarrow> (server_call \<Rightarrow> exn + unit http_response)
     \<Rightarrow> os_proc list \<Rightarrow> (string \<times> string) list \<Rightarrow> envs \<Rightarrow> string \<Rightarrow> string list
     \<Rightarrow> rule_info list \<Rightarrow> string \<Rightarrow> string \<Rightarrow> profiles \<Rightarrow> sonarqube \<Rightarrow> assembly" where
  "set_qualityprofiles cfg server procs walk env work_dir rules rule_list project_key
     languages files st =
     (case gather_profiles procs walk env work_dir languages files st of
        (st3, files2, paths3, Some x) \<Rightarrow>
          \<lparr>a_state = st3, a_files = files2, a_kept = paths3, a_calls = [], a_raised = Some x\<rparr>
      | (st3, files2, paths3, None) \<Rightarrow>
          (case filter_stage cfg rules rule_list paths3 files2 of
             (files4, Some x) \<Rightarrow>
               \<lparr>a_state = st3, a_files = files4, a_kept = paths3, a_calls = [],
                a_raised = Some x\<rparr>
           | (files4, None) \<Rightarrow>
               (case publish_stage server project_key files4 paths3 of
                  (calls, x) \<Rightarrow>
                    \<lparr>a_state = st3, a_files = files4, a_kept = paths3, a_calls = calls,
                     a_raised = x\<rparr>)))"

text \<open>Every rule of a document has its repository-qualified key among the allowed rules.\<close>

definition within_allowed :: "string list \<Rightarrow> profile \<Rightarrow> bool" where
  "within_allowed rules doc = list_all (\<lambda>r. real_name r \<in> set rules) (pr_rules doc)"

subsection \<open>Profiles of the examples\<close>

definition a_rule :: "string \<Rightarrow> rule" where
  "a_rule k = \<lparr> r_repositoryKey = ''java'', r_key = k, r_parameters = [] \<rparr>"

definition a_profile :: "string \<Rightarrow> string list \<Rightarrow> profile" where
  "a_profile n ks = \<lparr> pr_name = n, pr_language = ''java'', pr_rules = map a_rule ks \<rparr>"

definition no_env :: envs where
  "no_env = \<lparr> SOURCE_DIR = ''/src'', BUILD_CWD = None, SONAR_QUALITYPROFILE_TYPE = None,
              SONAR_QUALITYPROFILE = None \<rparr>"

definition accepting :: "server_call \<Rightarrow> exn + unit http_response" where
  "accepting c = Inr \<lparr> status_code = 200, reason = ''OK'', errors = None, body = () \<rparr>"

section \<open>Issues and findings\<close>

text \<open>
  A raw issue of the server and its parts, as the extractor reads them. An absent
  \<^verbatim>\<open>textRange\<close> of the issue is \<open>None\<close>; absent \<^verbatim>\<open>flows\<close> or \<^verbatim>\<open>locations\<close> are
  empty lists; a location's \<^verbatim>\<open>textRange\<close> is read without a default, so its absence
  raises.
\<close>

record location =
  l_component :: string
  l_textRange :: "(int \<times> int) option"
  l_msg :: "string option"

record issue =
  i_rule :: string
  i_component :: string
  i_message :: string
  i_textRange :: "(int \<times> int) option"
  i_flows :: "location list list"

text \<open>
  The answer of the block-detail lookup: the duplications, each a list of blocks (start
  line, size, reference to a file), and the files by reference.
\<close>

record block =
  b_from :: int
  b_size :: int
  b_ref :: string

record duplications =
  d_duplications :: "block list list"
  d_files :: "(string \<times> string) list"

text \<open>
  A reference of a finding. Its message is either the text of a flow location or the
  message the source formats for a duplicated block from the block's first and last
  line.
\<close>

datatype ref_msg = DuplicateBlock int int | LocationMsg string

record ref =
  ref_line :: int
  ref_column :: int
  ref_msg :: ref_msg
  ref_tag :: "string option"
  ref_path :: string

record finding =
  f_path :: string
  f_rule :: string
  f_msg :: string
  f_line :: int
  f_column :: int
  f_refs :: "ref list"

text \<open>A loop that builds a list and stops at the first exception.\<close>

fun traverse :: "('a \<Rightarrow> exn + 'b) \<Rightarrow> 'a list \<Rightarrow> exn + 'b list" where
  "traverse f [] = Inr []"
| "traverse f (x # xs) =
     (case f x of
        Inl e \<Rightarrow> Inl e
      | Inr y \<Rightarrow> (case traverse f xs of Inl e \<Rightarrow> Inl e | Inr ys \<Rightarrow> Inr (y # ys)))"

definition block_ref :: "(string \<times> string) list \<Rightarrow> block \<Rightarrow> exn + ref" where
  "block_ref files b =
     (case map_of files (b_ref b) of
        None \<Rightarrow> Inl (KeyError (b_ref b))
      | Some name \<Rightarrow>
          Inr \<lparr> ref_line = b_from b, ref_column = 0,
                ref_msg = DuplicateBlock (b_from b) (b_from b + b_size b - 1),
                ref_tag = None, ref_path = name \<rparr>)"

definition location_ref :: "location \<Rightarrow> exn + ref" where
  "location_ref l =
     (case l_textRange l of
        None \<Rightarrow> Inl (KeyError ''textRange'')
      | Some (startLine, startOffset) \<Rightarrow>
          Inr \<lparr> ref_line = startLine, ref_column = startOffset,
                ref_msg = LocationMsg (case l_msg l of None \<Rightarrow> [] | Some m \<Rightarrow> m),
                ref_tag = None, ref_path = last (split_on CHR '':'' (l_component l)) \<rparr>)"

text \<open>
  The path stored in a finding: the component's part after its last colon, joined onto
  the build directory, without its first \<open>pos\<close> characters.
\<close>

definition finding_path :: "string \<Rightarrow> nat \<Rightarrow> string \<Rightarrow> string" where
  "finding_path build_cwd pos component =
     drop pos (path_join build_cwd (last (split_on CHR '':'' component)))"

text \<open>
  One round of the loop over the issues: the findings it appends, or the exception it
  raises. \<open>lookup\<close> is \<^verbatim>\<open>duplications_show\<close>, transport layer included.
\<close>

definition issue_findings ::
  "(string \<Rightarrow> exn + duplications) \<Rightarrow> string \<Rightarrow> nat \<Rightarrow> bool \<Rightarrow> string list \<Rightarrow> issue
     \<Rightarrow> exn + finding list" where
  "issue_findings lookup build_cwd pos is_quality rules i =
     (if \<not> is_quality \<and> rules \<noteq> [] \<and> i_rule i \<notin> set rules then Inr []
      else
        (let path = finding_path build_cwd pos (i_component i);
             line = (case i_textRange i of Some (l, c) \<Rightarrow> l | None \<Rightarrow> 0);
             column = (case i_textRange i of Some (l, c) \<Rightarrow> c | None \<Rightarrow> 0)
         in if endswith (i_rule i) ''DuplicatedBlocks'' then
              (case lookup (i_component i) of
                 Inl x \<Rightarrow> Inl x
               | Inr dupl_blocks \<Rightarrow>
                   (case traverse (traverse (block_ref (d_files dupl_blocks)))
                           (d_duplications dupl_blocks) of
                      Inl x \<Rightarrow> Inl x
                    | Inr refss \<Rightarrow>
                        Inr (map (\<lambda>refs. \<lparr> f_path = path, f_rule = i_rule i,
                                            f_msg = i_message i, f_line = line,
                                            f_column = column, f_refs = refs \<rparr>) refss)))
            else
              (case traverse location_ref (concat (i_flows i)) of
                 Inl x \<Rightarrow> Inl x
               | Inr refs \<Rightarrow>
                   Inr [\<lparr> f_path = path, f_rule = i_rule i, f_msg = i_message i,
                          f_line = line, f_column = column, f_refs = refs \<rparr>])))"

text \<open>The loop: the findings appended before it ended, and the exception that ended it.\<close>

fun collect ::
  "(string \<Rightarrow> exn + duplications) \<Rightarrow> string \<Rightarrow> nat \<Rightarrow> bool \<Rightarrow> string list \<Rightarrow> issue list
     \<Rightarrow> finding list \<times> exn option" where
  "collect lookup build_cwd pos is_quality rules [] = ([], None)"
| "collect lookup build_cwd pos is_quality rules (i # is) =
     (case issue_findings lookup build_cwd pos is_quality rules i of
        Inl x \<Rightarrow> ([], Some x)
      | Inr fs \<Rightarrow>
          (case collect lookup build_cwd pos is_quality rules is of
             (gs, x) \<Rightarrow> (fs @ gs, x)))"

text \<open>
  The extraction of \<^verbatim>\<open>scan_proj\<close>. The issue stream of the server is given as the
  issues it yields and the exception it then raises, if any. A validation error, from the
  stream or from the lookup, ends the loop and keeps the findings made so far; any other
  exception propagates.
\<close>

definition build_cwd_of :: "envs \<Rightarrow> string" where
  "build_cwd_of env =
     (case BUILD_CWD env of
        None \<Rightarrow> SOURCE_DIR env
      | Some b \<Rightarrow> if b \<noteq> [] then path_join (SOURCE_DIR env) b else SOURCE_DIR env)"

definition extract_issues ::
  "(string \<Rightarrow> exn + duplications) \<Rightarrow> envs \<Rightarrow> string list \<Rightarrow> issue list \<Rightarrow> exn option
     \<Rightarrow> exn + finding list" where
  "extract_issues lookup env rules issues stream_end =
     (let pos = length (SOURCE_DIR env) + 1;
          is_quality = (SONAR_QUALITYPROFILE env \<noteq> None \<or> SONAR_QUALITYPROFILE_TYPE env \<noteq> None)
      in case collect lookup (build_cwd_of env) pos is_quality rules issues of
           (fs, Some x) \<Rightarrow> if is_ValidationError x then Inr fs else Inl x
         | (fs, None) \<Rightarrow>
             (case stream_end of
                None \<Rightarrow> Inr fs
              | Some x \<Rightarrow> if is_ValidationError x then Inr fs else Inl x))"

subsection \<open>The cognitive-complexity summary\<close>





















subsection \<open>Issues of the examples\<close>

definition a_duplication_issue :: issue where
  "a_duplication_issue =
     \<lparr> i_rule = ''common-java:DuplicatedBlocks'', i_component = ''test:src/A.java'',
       i_message = ''2 duplicated blocks of code must be removed.'',
       i_textRange = None, i_flows = [] \<rparr>"

definition a_lookup :: "string \<Rightarrow> exn + duplications" where
  "a_lookup component =
     Inr \<lparr> d_duplications =
             [ [\<lparr>b_from = 10, b_size = 5, b_ref = ''1''\<rparr>, \<lparr>b_from = 40, b_size = 5, b_ref = ''2''\<rparr>],
               [\<lparr>b_from = 70, b_size = 8, b_ref = ''1''\<rparr>, \<lparr>b_from = 12, b_size = 8, b_ref = ''2''\<rparr>] ],
           d_files = [(''1'', ''A.java''), (''2'', ''B.java'')] \<rparr>"

definition a_single_duplication :: "string \<Rightarrow> exn + duplications" where
  "a_single_duplication component =
     Inr \<lparr> d_duplications =
             [ [\<lparr>b_from = 10, b_size = 5, b_ref = ''1''\<rparr>, \<lparr>b_from = 40, b_size = 5, b_ref = ''2''\<rparr>] ],
           d_files = [(''1'', ''A.java''), (''2'', ''B.java'')] \<rparr>"




section \<open>Verified properties\<close>

subsection \<open>The error path\<close>

lemma find_sonar_example:
  "find_sonar [(3, None), (5, Some (''bash'', [''bash''])),
               (7, Some (''Java'', [''java'', ''-jar'', ''lib/sonar-application-8.9.8.jar'']))]
   = Some 7"
  by (simp add: startswith_def lower_def lower_char_def)

text \<open>
  Claim C7. Whatever the message and the error type, \<^verbatim>\<open>_raise_error\<close> calls the
  teardown \<^verbatim>\<open>_kill_sonar\<close> exactly once when the model is LOCAL and not at all when it
  is COMMON, leaves the model as it was, and raises \<^verbatim>\<open>CompileTaskError\<close> for the
  type \<^verbatim>\<open>compile\<close>, \<^verbatim>\<open>ConfigError\<close> for \<^verbatim>\<open>config\<close> and \<^verbatim>\<open>AnalyzeTaskError\<close>
  for every other type, each carrying the message it was given.
\<close>

theorem raise_error_teardown_iff_local:
  "(teardown_log (fst (raise_error procs msg err_type st))
      = teardown_log st @ [find_sonar procs]) = (model st = LOCAL_MODEL)
   \<and> (model st = COMMON_MODEL \<longrightarrow>
        teardown_log (fst (raise_error procs msg err_type st)) = teardown_log st)
   \<and> model (fst (raise_error procs msg err_type st)) = model st
   \<and> snd (raise_error procs msg err_type st)
      = (if err_type = Some ''compile'' then CompileTaskError msg
         else if err_type = Some ''config'' then ConfigError msg
         else AnalyzeTaskError msg)"
  by (cases "model st") (simp_all add: raise_error_def kill_sonar_def error_of_def)

theorem raise_error_teardown_iff_local_witness:
  "teardown_log (fst (raise_error [(7, Some (''java'', [''lib/sonar-application'']))]
      MsgTaskTimeout (Some ''analyze'')
      (use_common_sonarqube a_common_user (init SQ_LOCAL_USER ''42'' False)))) = []
   \<and> snd (raise_error [(7, Some (''java'', [''lib/sonar-application'']))]
      MsgTaskTimeout (Some ''analyze'')
      (use_common_sonarqube a_common_user (init SQ_LOCAL_USER ''42'' False)))
     = AnalyzeTaskError MsgTaskTimeout
   \<and> teardown_log (fst (raise_error [(7, Some (''java'', [''lib/sonar-application'']))]
      (MsgText ''build failed'') (Some ''compile'') (init SQ_LOCAL_USER ''42'' False)))
     = [Some 7]"
  using raise_error_teardown_iff_local
    [of "[(7, Some (''java'', [''lib/sonar-application'']))]" MsgTaskTimeout "Some ''analyze''"
        "use_common_sonarqube a_common_user (init SQ_LOCAL_USER ''42'' False)"]
    raise_error_teardown_iff_local
    [of "[(7, Some (''java'', [''lib/sonar-application'']))]" "MsgText ''build failed''"
        "Some ''compile''" "init SQ_LOCAL_USER ''42'' False"]
  by (simp add: use_common_sonarqube_def init_def startswith_def lower_def lower_char_def)

subsection \<open>The server model\<close>

lemma feed_append: "feed common (xs @ ys) st = feed common ys (feed common xs st)"
  by (simp add: feed_def)

lemma feed_Cons: "feed common (l # ls) st = feed common ls (start_sonarqube common l st)"
  by (simp add: feed_def)

lemma feed_Nil: "feed common [] st = st"
  by (simp add: feed_def)

lemma start_sonarqube_stays_common:
  "model st = COMMON_MODEL \<Longrightarrow> model (start_sonarqube common l st) = COMMON_MODEL"
  by (simp add: start_sonarqube_def use_common_sonarqube_def split: option.splits)

lemma feed_stays_common:
  "model st = COMMON_MODEL \<Longrightarrow> model (feed common ls st) = COMMON_MODEL"
  by (induction ls arbitrary: st) (simp_all add: feed_Nil feed_Cons start_sonarqube_stays_common)

lemma start_sonarqube_timeout: "timeout (start_sonarqube common l st) = timeout st"
  by (simp add: start_sonarqube_def use_common_sonarqube_def split: option.splits)

lemma feed_timeout: "timeout (feed common ls st) = timeout st"
  by (induction ls arbitrary: st) (simp_all add: feed_Nil feed_Cons start_sonarqube_timeout)

text \<open>
  Claim C8, as stated, fails: the callback of the local server's output calls
  \<^verbatim>\<open>_use_common_sonarqube\<close> for every line that holds a fatal signature, so two such
  lines perform the switch to the common endpoint twice in one run.
\<close>

theorem switch_to_common_performed_twice:
  "\<not> switch_calls (feed (Some a_common_user)
         [''java.lang.IllegalStateException: SonarQube requires Java 11 to run'',
          ''app[][o.s.a.SchedulerImpl] SonarQube is stopped'']
         (init SQ_LOCAL_USER ''42'' False)) \<le> 1"
  by (simp add: feed_def start_sonarqube_def fatal_signatures_def startswith_def
      use_common_sonarqube_def init_def)

text \<open>
  Claim C8, amended. Once the model is COMMON it stays COMMON: under every further line of
  the server's output, under a further switch and under the error path; so the change
  from LOCAL to COMMON happens at most once in a run. The switch itself can be performed
  again, and performing it again changes nothing but the count of its calls: URL, port,
  path prefix, credentials, project key, handler and flag are as the first switch left
  them.
\<close>

theorem model_common_is_final:
  "(model (feed common xs st) = COMMON_MODEL \<longrightarrow>
      model (feed common (xs @ ys) st) = COMMON_MODEL)
   \<and> model (use_common_sonarqube cu st) = COMMON_MODEL
   \<and> (model st = COMMON_MODEL \<longrightarrow>
        model (fst (raise_error procs msg err_type st)) = COMMON_MODEL)
   \<and> use_common_sonarqube cu (use_common_sonarqube cu st)
      = (use_common_sonarqube cu st)\<lparr>switch_calls := Suc (Suc (switch_calls st))\<rparr>"
  by (simp add: feed_append feed_stays_common raise_error_def use_common_sonarqube_def)

theorem model_common_is_final_witness:
  "model (feed (Some a_common_user) [''fatal error, unable to load plugins'']
            (init SQ_LOCAL_USER ''42'' False)) = COMMON_MODEL
   \<and> model (feed (Some a_common_user)
              ([''fatal error, unable to load plugins''] @ [''SonarQube is up'', ''bye''])
              (init SQ_LOCAL_USER ''42'' False)) = COMMON_MODEL"
proof -
  have c: "model (feed (Some a_common_user) [''fatal error, unable to load plugins'']
            (init SQ_LOCAL_USER ''42'' False)) = COMMON_MODEL"
    by (simp add: feed_def start_sonarqube_def fatal_signatures_def startswith_def
        use_common_sonarqube_def init_def)
  with model_common_is_final
    [of "Some a_common_user" "[''fatal error, unable to load plugins'']"
        "init SQ_LOCAL_USER ''42'' False" "[''SonarQube is up'', ''bye'']"]
  show ?thesis by blast
qed

subsection \<open>Waiting for the server\<close>

lemma server_up_step_in_time:
  "\<not> deadline < now e \<Longrightarrow> server_up_step procs deadline e st = (st, Inr (polled_up e))"
  by (auto simp: server_up_step_def polled_up_def split: sum.splits option.splits)

lemma server_up_loop_waits:
  "\<forall>x\<in>set pre. \<not> polled_up x \<and> now x \<le> d \<Longrightarrow>
   server_up_loop common procs d False (pre @ es) st =
     (case server_up_loop common procs d False es (feed common (concat (map log pre)) st) of
        (s, n, out) \<Rightarrow> (s, length pre + n, out))"
proof (induction pre arbitrary: st)
  case Nil
  show ?case by (simp add: feed_Nil split: prod.splits)
next
  case (Cons a pre)
  then have a: "\<not> polled_up a" "\<not> d < now a"
    and rest: "\<forall>x\<in>set pre. \<not> polled_up x \<and> now x \<le> d"
    by auto
  show ?case
    using Cons.IH[OF rest, of "feed common (log a) st"] a
    by (simp add: server_up_step_in_time feed_append split: prod.splits)
qed

lemma local_up_invariant_step:
  "(model st = COMMON_MODEL \<longrightarrow> is_local_up st) \<Longrightarrow>
   (model (start_sonarqube common l st) = COMMON_MODEL
      \<longrightarrow> is_local_up (start_sonarqube common l st))"
  by (simp add: start_sonarqube_def use_common_sonarqube_def split: option.splits)

lemma local_up_invariant:
  "(model st = COMMON_MODEL \<longrightarrow> is_local_up st) \<Longrightarrow>
   (model (feed common ls st) = COMMON_MODEL \<longrightarrow> is_local_up (feed common ls st))"
proof (induction ls arbitrary: st)
  case Nil
  then show ?case by (simp add: feed_Nil)
next
  case (Cons l ls)
  show ?case
    using Cons.IH[OF local_up_invariant_step[OF Cons.prems, of common l]]
    by (simp add: feed_Cons)
qed

text \<open>
  Claim C6, as stated, fails: the deadline is tested after every poll, also after the one
  that answers UP. Here the second poll answers UP and the flag is set, but the clock has
  passed the deadline (300 seconds after entry), and the loop raises instead of becoming
  ready.
\<close>

theorem server_up_after_deadline_raises:
  "\<not> polled_up (answer (Some ''DOWN'') 150)
   \<and> polled_up (answer (Some ''UP'') 301)
   \<and> is_local_up (init SQ_LOCAL_USER ''42'' True)
   \<and> snd (wait_until_sonarqube_on None [] 0
            [answer (Some ''DOWN'') 150, answer (Some ''UP'') 301]
            (init SQ_LOCAL_USER ''42'' True))
       = (2, Raises (AnalyzeTaskError MsgServerUpTimeout))"
  by (simp add: wait_until_sonarqube_on_def server_up_step_def polled_up_def call_def
      request_def answer_def feed_def init_def raise_error_def error_of_def kill_sonar_def)

text \<open>
  Claim C6, amended. Let the status poll answer UP on the Nth call and something else (or
  fail) on every earlier call, let no deadline test up to the Nth find the deadline
  passed, and let the run have started from an object in which the model COMMON implies
  the flag (as \<^verbatim>\<open>__init__\<close> and the switch to the common server leave it). Then: if
  after the Nth poll the model is COMMON or the owned-local-up flag is set, the loop
  returns after exactly N polls; if the flag is not set then, the loop is still waiting
  after the N polls; and after any k < N polls the loop is still waiting.
\<close>

theorem server_ready_after_exactly_n_polls:
  assumes nonup: "\<forall>x\<in>set pre. \<not> polled_up x"
    and up: "polled_up e"
    and intime: "\<forall>x\<in>set (pre @ [e]). now x \<le> t0 + timeout st"
    and inv: "model st = COMMON_MODEL \<longrightarrow> is_local_up st"
  shows "((model (feed common (concat (map log (pre @ [e]))) st) = COMMON_MODEL
           \<or> is_local_up (feed common (concat (map log (pre @ [e]))) st)) \<longrightarrow>
          wait_until_sonarqube_on common procs t0 (pre @ e # rest) st
            = (feed common (concat (map log (pre @ [e]))) st, Suc (length pre), Returns ()))
       \<and> (\<not> is_local_up (feed common (concat (map log (pre @ [e]))) st) \<longrightarrow>
          wait_until_sonarqube_on common procs t0 (pre @ [e]) st
            = (feed common (concat (map log (pre @ [e]))) st, Suc (length pre), Waiting))
       \<and> (\<forall>k\<le>length pre.
            wait_until_sonarqube_on common procs t0 (take k pre) st
              = (feed common (concat (map log (take k pre))) st, k, Waiting))"
proof -
  let ?d = "t0 + timeout st"
  let ?S = "feed common (concat (map log (pre @ [e]))) st"
  have pre: "\<forall>x\<in>set pre. \<not> polled_up x \<and> now x \<le> ?d"
    using nonup intime by auto
  have e: "\<not> ?d < now e"
    using intime by auto
  have flag: "(model ?S = COMMON_MODEL \<or> is_local_up ?S) = is_local_up ?S"
    using local_up_invariant[OF inv, of common "concat (map log (pre @ [e]))"] by blast
  have 1: "is_local_up ?S \<Longrightarrow>
      wait_until_sonarqube_on common procs t0 (pre @ e # rest) st
        = (?S, Suc (length pre), Returns ())"
    unfolding wait_until_sonarqube_on_def server_up_loop_waits[OF pre]
    using e up by (cases rest) (simp_all add: server_up_step_in_time feed_append)
  have 2: "\<not> is_local_up ?S \<Longrightarrow>
      wait_until_sonarqube_on common procs t0 (pre @ [e]) st
        = (?S, Suc (length pre), Waiting)"
    unfolding wait_until_sonarqube_on_def server_up_loop_waits[OF pre]
    using e up by (simp add: server_up_step_in_time feed_append)
  have 3: "wait_until_sonarqube_on common procs t0 (take k pre) st
             = (feed common (concat (map log (take k pre))) st, k, Waiting)"
    if "k \<le> length pre" for k
  proof -
    have p: "\<forall>x\<in>set (take k pre). \<not> polled_up x \<and> now x \<le> ?d"
      using pre by (meson in_set_takeD)
    show ?thesis
      unfolding wait_until_sonarqube_on_def
      using server_up_loop_waits[OF p, of common procs "[]" st] that
      by simp
  qed
  show ?thesis
    using 1 2 3 flag by blast
qed

theorem server_ready_after_exactly_n_polls_witness:
  "snd (wait_until_sonarqube_on None [] 0
          ([answer (Some ''STARTING'') 5]
           @ (answer (Some ''UP'') 10)\<lparr>log := [''SonarQube is up'']\<rparr> # [answer None 15])
          (init SQ_LOCAL_USER ''42'' False))
     = (2, Returns ())"
proof -
  let ?pre = "[answer (Some ''STARTING'') 5]"
  let ?e = "(answer (Some ''UP'') 10)\<lparr>log := [''SonarQube is up'']\<rparr>"
  let ?st = "init SQ_LOCAL_USER ''42'' False"
  have h1: "\<forall>x\<in>set ?pre. \<not> polled_up x"
    by (simp add: polled_up_def call_def request_def answer_def)
  have h2: "polled_up ?e"
    by (simp add: polled_up_def call_def request_def answer_def)
  have h3: "\<forall>x\<in>set (?pre @ [?e]). now x \<le> 0 + timeout ?st"
    by (simp add: answer_def init_def)
  have h4: "model ?st = COMMON_MODEL \<longrightarrow> is_local_up ?st"
    by (simp add: init_def)
  have flag: "is_local_up (feed None (concat (map log (?pre @ [?e]))) ?st)"
    by (simp add: feed_def start_sonarqube_def fatal_signatures_def startswith_def
        answer_def init_def)
  from server_ready_after_exactly_n_polls[OF h1 h2 h3 h4, of None "[]" "[answer None 15]"] flag
  show ?thesis by simp
qed

subsection \<open>Creating the project\<close>

lemma project_create_ok:
  "reply e = Inr r \<Longrightarrow> status_code r < 300 \<Longrightarrow> now e \<le> t + timeout st \<Longrightarrow>
   wait_until_project_create common procs t (e # es) st
     = (feed common (log e) st, [projectKey (feed common (log e) st)], Returns ())"
  by (simp add: wait_until_project_create_def call_def request_def retry_times_def Let_def)

lemma project_create_exists:
  "reply e = Inr r \<Longrightarrow> status_code r = 400 \<Longrightarrow> errors r = Some ms \<Longrightarrow>
   now e \<le> t + timeout st \<Longrightarrow>
   wait_until_project_create common procs t (e # es) st
     = (feed common (log e) st, [projectKey (feed common (log e) st)], Returns ())"
  by (simp add: wait_until_project_create_def call_def request_def retry_times_def Let_def)

text \<open>
  Claim C5, as stated, fails: the loop tests the deadline in every iteration, also in the
  one that swallowed the validation error. Here the first creation succeeds; the second
  is answered 400 "already exists", but the answer comes after that call's deadline
  (entered at 1000, timeout 300), and the second call raises.
\<close>

theorem project_create_second_call_raises:
  "snd (wait_until_project_create None [] 0 [answer () 1] (init SQ_LOCAL_USER ''42'' True))
     = ([''test''], Returns ())
   \<and> snd (wait_until_project_create None [] 1000
          [refusal 400 [''Could not create Project, key already exists: test''] () 1301]
          (fst (wait_until_project_create None [] 0 [answer () 1]
                  (init SQ_LOCAL_USER ''42'' True))))
     = ([''test''], Raises (AnalyzeTaskError MsgCreateTimeout))"
  by (simp add: wait_until_project_create_def call_def request_def retry_times_def Let_def
      answer_def refusal_def feed_def init_def raise_error_def error_of_def kill_sonar_def
      SQ_LOCAL_USER_def)

text \<open>
  Claim C5, amended. The transport layer passes a status below 300 through, raises
  \<^verbatim>\<open>ValidationError\<close> for 400 (with the messages of the error list), \<^verbatim>\<open>AuthError\<close> for
  401 and 403, \<^verbatim>\<open>ClientError\<close> for every other 4xx and \<^verbatim>\<open>ServerError\<close> from 500 on.
  When the first project creation is answered with a status below 300 and the second with
  the server's 400, and each call's deadline test finds its deadline not passed, the first
  call returns after one creation request and the second call, run on the object the
  first one left, swallows the validation error and returns after one request too.
\<close>

theorem project_create_twice_returns:
  assumes "reply e1 = Inr r1" and "status_code r1 < 300" and "now e1 \<le> t1 + timeout st"
    and "reply e2 = Inr r2" and "status_code r2 = 400" and "errors r2 = Some msgs"
    and "now e2 \<le> t2 + timeout st"
  shows "wait_until_project_create common procs t1 (e1 # es1) st
           = (feed common (log e1) st, [projectKey (feed common (log e1) st)], Returns ())
       \<and> call (reply e2) = Inl (ValidationError (join_sep '', '' msgs))
       \<and> wait_until_project_create common procs t2 (e2 # es2) (feed common (log e1) st)
           = (feed common (log e1 @ log e2) st,
              [projectKey (feed common (log e1 @ log e2) st)], Returns ())
       \<and> (status_code res < 300 \<longrightarrow> request res = Inr res)
       \<and> (status_code res = 400 \<and> errors res = Some ms \<longrightarrow>
            request res = Inl (ValidationError (join_sep '', '' ms)))
       \<and> (status_code res = 401 \<or> status_code res = 403 \<longrightarrow>
            request res = Inl (AuthError (reason res)))
       \<and> (400 < status_code res \<and> status_code res < 500 \<and> status_code res \<noteq> 401
            \<and> status_code res \<noteq> 403 \<longrightarrow> request res = Inl (ClientError (reason res)))
       \<and> (500 \<le> status_code res \<longrightarrow> request res = Inl (ServerError (reason res)))"
proof -
  have 1: "wait_until_project_create common procs t1 (e1 # es1) st
           = (feed common (log e1) st, [projectKey (feed common (log e1) st)], Returns ())"
    using assms(1-3) by (rule project_create_ok)
  have 2: "call (reply e2) = Inl (ValidationError (join_sep '', '' msgs))"
    using assms(4-6) by (simp add: call_def request_def)
  have "now e2 \<le> t2 + timeout (feed common (log e1) st)"
    using assms(7) by (simp add: feed_timeout)
  with assms(4-6)
  have 3: "wait_until_project_create common procs t2 (e2 # es2) (feed common (log e1) st)
           = (feed common (log e1 @ log e2) st,
              [projectKey (feed common (log e1 @ log e2) st)], Returns ())"
    by (simp add: project_create_exists feed_append)
  show ?thesis
    using 1 2 3 by (simp add: request_def)
qed

theorem project_create_twice_returns_witness:
  "snd (wait_until_project_create None [] 0 [answer () 1]
          (init SQ_LOCAL_USER ''42'' True)) = ([''test''], Returns ())
   \<and> snd (wait_until_project_create None [] 2
            [refusal 400 [''Could not create Project, key already exists: test''] () 3]
            (init SQ_LOCAL_USER ''42'' True)) = ([''test''], Returns ())"
proof -
  let ?st = "init SQ_LOCAL_USER ''42'' True"
  let ?r1 = "\<lparr>status_code = 200, reason = ''OK'', errors = None, body = ()\<rparr>"
  let ?m = "[''Could not create Project, key already exists: test'']"
  let ?r2 = "\<lparr>status_code = 400, reason = ''Error'', errors = Some ?m, body = ()\<rparr>"
  have a: "reply (answer () 1) = Inr ?r1" "status_code ?r1 < 300"
      "now (answer () 1 :: unit tick) \<le> 0 + timeout ?st"
    by (simp_all add: answer_def init_def)
  have b: "reply (refusal 400 ?m () 3) = Inr ?r2" "status_code ?r2 = 400"
      "errors ?r2 = Some ?m" "now (refusal 400 ?m () 3 :: unit tick) \<le> 2 + timeout ?st"
    by (simp_all add: refusal_def init_def)
  have f: "feed None (log (answer () 1 :: unit tick)) ?st = ?st"
    by (simp add: answer_def feed_def)
  have g: "feed None (log (refusal 400 ?m () 3 :: unit tick)) ?st = ?st"
    by (simp add: refusal_def feed_def)
  have p: "projectKey ?st = ''test''"
    by (simp add: init_def SQ_LOCAL_USER_def)
  from project_create_twice_returns
    [OF a b, where common = None and procs = "[]" and ?es1.0 = "[]" and ?es2.0 = "[]"
       and res = ?r1 and ms = "[]"]
  show ?thesis
    by (simp add: f g p feed_append)
qed

subsection \<open>Waiting for the compute task\<close>

lemma task_step_pending:
  "task_pending e \<Longrightarrow> \<not> d < now e \<Longrightarrow> task_step procs d e st = (st, Waiting)"
  by (auto simp: task_step_def task_pending_def task_deadline_def split: sum.splits)

lemma task_step_succeeded:
  "task_succeeded e \<Longrightarrow> \<not> d < now e \<Longrightarrow> task_step procs d e st = (st, Returns ())"
  by (auto simp: task_step_def task_succeeded_def task_deadline_def split: sum.splits)

lemma classify_heap_space: "classify_failed ''Java heap space'' = MsgHeapSpace"
  by (simp add: classify_failed_def restart_match_def restart_head_def startswith_def
      lower_def lower_char_def)

lemma task_step_heap_space:
  "task_failed_with ''Java heap space'' e \<Longrightarrow>
   snd (task_step procs d e st) = Raises (AnalyzeTaskError MsgHeapSpace)"
  by (auto simp: task_step_def task_failed_with_def classify_heap_space raised_def
      raise_error_def error_of_def split: sum.splits)

lemma task_loop_waits:
  "\<forall>x\<in>set pre. task_pending x \<and> now x \<le> d \<Longrightarrow>
   task_loop common procs ident d (pre @ es) st =
     (case task_loop common procs ident d es (feed common (concat (map log pre)) st) of
        (s, ids, out) \<Rightarrow> (s, replicate (length pre) ident @ ids, out))"
proof (induction pre arbitrary: st)
  case Nil
  show ?case by (simp add: feed_Nil split: prod.splits)
next
  case (Cons a pre)
  then have a: "task_pending a" "\<not> d < now a"
    and rest: "\<forall>x\<in>set pre. task_pending x \<and> now x \<le> d"
    by auto
  show ?case
    using Cons.IH[OF rest, of "feed common (log a) st"] a
    by (simp add: task_step_pending feed_append split: prod.splits)
qed

lemma task_loop_ids:
  "set (fst (snd (task_loop common procs ident d es st))) \<subseteq> {ident}"
proof (induction es arbitrary: st)
  case Nil
  show ?case by simp
next
  case (Cons e es)
  obtain s1 o1 where s: "task_step procs d e (feed common (log e) st) = (s1, o1)"
    by (cases "task_step procs d e (feed common (log e) st)")
  obtain s2 ids o2 where l: "task_loop common procs ident d es s1 = (s2, ids, o2)"
    by (cases "task_loop common procs ident d es s1")
  have "set ids \<subseteq> {ident}"
    using Cons.IH[of s1] l by simp
  then show ?case
    using s l by (cases o1) auto
qed

lemma task_id_of_fixed_line:
  "4 < length lines \<Longrightarrow> strip (lines ! 4) = ''ceTaskId=AX1'' \<Longrightarrow> task_id lines = Inr ''AX1''"
  by (simp add: task_id_def split_on_def)

text \<open>
  Claim C4, as stated, fails: the deadline is tested after every query, also after the one
  that answered SUCCESS. Here the report's identifier line reads \<^verbatim>\<open>ceTaskId=AX1\<close> and
  the first query answers SUCCESS, but after the deadline (300 seconds after entry), and
  the poller raises the timeout error.
\<close>

theorem task_success_after_deadline_raises:
  "task_succeeded (answer \<lparr>t_status = ''SUCCESS'', t_errorMessage = None\<rparr> 301)
   \<and> snd (wait_until_task_succeed None [] [''report-task.txt'' \<mapsto> a_report]
            (Some ''report-task.txt'') 0
            [answer \<lparr>t_status = ''SUCCESS'', t_errorMessage = None\<rparr> 301]
            (init SQ_LOCAL_USER ''42'' True))
       = ([''AX1''], Raises (AnalyzeTaskError MsgTaskTimeout))"
  by (simp add: wait_until_task_succeed_def task_id_def a_report_def split_on_def strip_def
      is_space_def task_step_def task_deadline_def task_succeeded_def call_def request_def
      answer_def feed_def init_def raised_def raise_error_def error_of_def kill_sonar_def)

text \<open>
  Claim C4, amended. Let the report exist and its fifth line, stripped, read
  \<^verbatim>\<open>ceTaskId=AX1\<close>. Then every query of the poller uses the identifier \<^verbatim>\<open>AX1\<close>. After
  any number of queries that found nothing final within the deadline: a query that
  answers SUCCESS, with the deadline not passed at the test that follows it, ends the loop
  without an error; a query that answers FAILED with the error message
  \<^verbatim>\<open>Java heap space\<close> raises the heap-overflow \<^verbatim>\<open>AnalyzeTaskError\<close>, whatever the clock
  reads.
\<close>

theorem task_poller_by_report_id:
  assumes "sonar_report = Some p" and "p \<noteq> []" and "files p = Some lines"
    and "4 < length lines" and "strip (lines ! 4) = ''ceTaskId=AX1''"
    and pending: "\<forall>x\<in>set pre. task_pending x \<and> now x \<le> t0 + timeout st"
  shows "set (fst (snd (wait_until_task_succeed common procs files sonar_report t0 es st)))
           \<subseteq> {''AX1''}
       \<and> (task_succeeded e \<and> now e \<le> t0 + timeout st \<longrightarrow>
            wait_until_task_succeed common procs files sonar_report t0 (pre @ e # rest) st
              = (feed common (concat (map log (pre @ [e]))) st,
                 replicate (Suc (length pre)) ''AX1'', Returns ()))
       \<and> (task_failed_with ''Java heap space'' e \<longrightarrow>
            snd (wait_until_task_succeed common procs files sonar_report t0 (pre @ e # rest) st)
              = (replicate (Suc (length pre)) ''AX1'', Raises (AnalyzeTaskError MsgHeapSpace)))"
proof -
  let ?d = "t0 + timeout st"
  have w: "wait_until_task_succeed common procs files sonar_report t0 xs st
             = task_loop common procs ''AX1'' ?d xs st" for xs
    using assms(1-5) by (simp add: wait_until_task_succeed_def task_id_of_fixed_line)
  have 1: "set (fst (snd (wait_until_task_succeed common procs files sonar_report t0 es st)))
             \<subseteq> {''AX1''}"
    unfolding w by (rule task_loop_ids)
  have 2: "wait_until_task_succeed common procs files sonar_report t0 (pre @ e # rest) st
             = (feed common (concat (map log (pre @ [e]))) st,
                replicate (Suc (length pre)) ''AX1'', Returns ())"
    if "task_succeeded e" and "now e \<le> ?d"
    unfolding w task_loop_waits[OF pending]
    using that by (simp add: task_step_succeeded feed_append replicate_append_same)
  have 3: "snd (wait_until_task_succeed common procs files sonar_report t0 (pre @ e # rest) st)
             = (replicate (Suc (length pre)) ''AX1'', Raises (AnalyzeTaskError MsgHeapSpace))"
    if f: "task_failed_with ''Java heap space'' e"
  proof -
    let ?s = "feed common (log e) (feed common (concat (map log pre)) st)"
    obtain s' where "task_step procs ?d e ?s = (s', Raises (AnalyzeTaskError MsgHeapSpace))"
      using task_step_heap_space[OF f, of procs ?d ?s]
      by (cases "task_step procs ?d e ?s") auto
    then show ?thesis
      unfolding w task_loop_waits[OF pending]
      by (simp add: replicate_append_same)
  qed
  show ?thesis
    using 1 2 3 by blast
qed

theorem task_poller_by_report_id_witness:
  "wait_until_task_succeed None [] [''report-task.txt'' \<mapsto> a_report]
     (Some ''report-task.txt'') 0
     ([answer \<lparr>t_status = ''PENDING'', t_errorMessage = None\<rparr> 5]
      @ answer \<lparr>t_status = ''SUCCESS'', t_errorMessage = None\<rparr> 10 # [])
     (init SQ_LOCAL_USER ''42'' True)
   = (init SQ_LOCAL_USER ''42'' True, [''AX1'', ''AX1''], Returns ())
   \<and> snd (wait_until_task_succeed None [] [''report-task.txt'' \<mapsto> a_report]
     (Some ''report-task.txt'') 0
     ([answer \<lparr>t_status = ''PENDING'', t_errorMessage = None\<rparr> 5]
      @ answer \<lparr>t_status = ''FAILED'', t_errorMessage = Some ''Java heap space''\<rparr> 10 # [])
     (init SQ_LOCAL_USER ''42'' True))
   = ([''AX1'', ''AX1''], Raises (AnalyzeTaskError MsgHeapSpace))"
proof -
  let ?files = "[''report-task.txt'' \<mapsto> a_report]"
  let ?st = "init SQ_LOCAL_USER ''42'' True"
  let ?pre = "[answer \<lparr>t_status = ''PENDING'', t_errorMessage = None\<rparr> 5]"
  let ?ok = "answer \<lparr>t_status = ''SUCCESS'', t_errorMessage = None\<rparr> 10"
  let ?bad = "answer \<lparr>t_status = ''FAILED'', t_errorMessage = Some ''Java heap space''\<rparr> 10"
  have r: "Some ''report-task.txt'' = Some ''report-task.txt''" "''report-task.txt'' \<noteq> []"
      "?files ''report-task.txt'' = Some a_report" "4 < length a_report"
      "strip (a_report ! 4) = ''ceTaskId=AX1''"
    by (simp_all add: a_report_def strip_def is_space_def)
  have p: "\<forall>x\<in>set ?pre. task_pending x \<and> now x \<le> 0 + timeout ?st"
    by (simp add: task_pending_def call_def request_def answer_def init_def)
  have ok: "task_succeeded ?ok \<and> now ?ok \<le> 0 + timeout ?st"
    by (simp add: task_succeeded_def call_def request_def answer_def init_def)
  have bad: "task_failed_with ''Java heap space'' ?bad"
    by (simp add: task_failed_with_def call_def request_def answer_def)
  have f: "feed None (concat (map log (?pre @ [?ok]))) ?st = ?st"
    by (simp add: answer_def feed_def)
  note t = task_poller_by_report_id[where files = ?files and p = "''report-task.txt''"
      and sonar_report = "Some ''report-task.txt''" and lines = a_report and pre = ?pre
      and ?t0.0 = 0 and st = ?st and common = None and procs = "[]" and es = "[]"
      and rest = "[]", OF r p]
  from t[where e = ?ok] t[where e = ?bad] ok bad f
  show ?thesis
    by (simp add: numeral_2_eq_2)
qed

subsection \<open>Parameter overrides\<close>

lemma apply_overrides_keys: "map p_key (apply_overrides d ps) = map p_key ps"
  by (induction ps) (auto split: option.splits)

lemma apply_overrides_nth:
  "i < length ps \<Longrightarrow>
   apply_overrides d ps ! i =
     (case map_of d (p_key (ps ! i)) of Some v \<Rightarrow> (ps ! i)\<lparr>p_value := v\<rparr> | None \<Rightarrow> ps ! i)"
proof (induction ps arbitrary: i)
  case Nil
  then show ?case by simp
next
  case (Cons p ps)
  then show ?case by (cases i) (auto split: option.splits)
qed

lemma process_rule_kept:
  "process_rule cfg rules rule_list r = Inr (Some r') \<Longrightarrow>
     real_name r \<in> set rules \<and>
     (r' = r \<or> (\<exists>rule_param d. find_rule_param rule_list (real_name r) = Some rule_param
          \<and> cfg (with_section rule_param) = Inr d
          \<and> r' = r\<lparr>r_parameters := apply_overrides d (r_parameters r)\<rparr>))"
  by (auto simp: process_rule_def split: if_splits option.splits sum.splits)

text \<open>
  Claim C10. Applying an override dictionary to the parameters of a rule keeps the list
  of parameter keys as it is (no parameter is added for an override key that matches
  none, none is removed); a parameter whose key is in the dictionary gets the
  dictionary's value, and a parameter whose key is not keeps its value. A retained rule
  is either left as it is or changed in just this way, by the dictionary read from the
  first entry of the rule list that bears its name.
\<close>

theorem overrides_touch_only_matching_parameters:
  "map p_key (apply_overrides d ps) = map p_key ps
   \<and> (\<forall>i<length ps.
        p_value (apply_overrides d ps ! i)
          = (case map_of d (p_key (ps ! i)) of Some v \<Rightarrow> v | None \<Rightarrow> p_value (ps ! i)))
   \<and> (process_rule cfg rules rule_list r = Inr (Some r') \<longrightarrow>
        r' = r \<or> (\<exists>rule_param d'. find_rule_param rule_list (real_name r) = Some rule_param
          \<and> cfg (with_section rule_param) = Inr d'
          \<and> r' = r\<lparr>r_parameters := apply_overrides d' (r_parameters r)\<rparr>))"
  using process_rule_kept[of cfg rules rule_list r r']
  by (auto simp: apply_overrides_keys apply_overrides_nth split: option.splits)

theorem overrides_touch_only_matching_parameters_witness:
  "process_rule (\<lambda>s. Inr [(''max'', ''20''), (''absent'', ''1'')]) [''java:S3776'']
     [\<lparr>ri_name = ''java:S3776'', ri_params = Some ''max=20''\<rparr>]
     \<lparr>r_repositoryKey = ''java'', r_key = ''S3776'',
      r_parameters = [\<lparr>p_key = ''max'', p_value = ''15''\<rparr>,
                      \<lparr>p_key = ''format'', p_value = ''x''\<rparr>]\<rparr>
   = Inr (Some \<lparr>r_repositoryKey = ''java'', r_key = ''S3776'',
      r_parameters = [\<lparr>p_key = ''max'', p_value = ''20''\<rparr>,
                      \<lparr>p_key = ''format'', p_value = ''x''\<rparr>]\<rparr>)
   \<and> map p_key (apply_overrides [(''max'', ''20''), (''absent'', ''1'')]
        [\<lparr>p_key = ''max'', p_value = ''15''\<rparr>, \<lparr>p_key = ''format'', p_value = ''x''\<rparr>])
     = [''max'', ''format'']
   \<and> map p_value (apply_overrides [(''max'', ''20''), (''absent'', ''1'')]
        [\<lparr>p_key = ''max'', p_value = ''15''\<rparr>, \<lparr>p_key = ''format'', p_value = ''x''\<rparr>])
     = [''20'', ''x'']"
proof -
  let ?d = "[(''max'', ''20''), (''absent'', ''1'')]"
  let ?ps = "[\<lparr>p_key = ''max'', p_value = ''15''\<rparr>, \<lparr>p_key = ''format'', p_value = ''x''\<rparr>]"
  let ?r = "\<lparr>r_repositoryKey = ''java'', r_key = ''S3776'', r_parameters = ?ps\<rparr>"
  let ?r' = "\<lparr>r_repositoryKey = ''java'', r_key = ''S3776'',
      r_parameters = [\<lparr>p_key = ''max'', p_value = ''20''\<rparr>,
                      \<lparr>p_key = ''format'', p_value = ''x''\<rparr>]\<rparr>"
  have h: "process_rule (\<lambda>s. Inr ?d) [''java:S3776'']
             [\<lparr>ri_name = ''java:S3776'', ri_params = Some ''max=20''\<rparr>] ?r = Inr (Some ?r')"
    by (simp add: process_rule_def real_name_def)
  have i: "0 < length ?ps" "1 < length ?ps"
    by simp_all
  note t = overrides_touch_only_matching_parameters
    [where d = ?d and ps = ?ps and cfg = "\<lambda>s. Inr ?d" and rules = "[''java:S3776'']"
       and rule_list = "[\<lparr>ri_name = ''java:S3776'', ri_params = Some ''max=20''\<rparr>]"
       and r = ?r and r' = ?r']
  from t have keys: "map p_key (apply_overrides ?d ?ps) = map p_key ?ps"
    by blast
  from t i have vals: "p_value (apply_overrides ?d ?ps ! 0) = ''20''"
      "p_value (apply_overrides ?d ?ps ! 1) = ''x''"
    by simp_all
  have len: "length (apply_overrides ?d ?ps) = 2"
    using arg_cong[OF keys, of length] by simp
  have "map p_value (apply_overrides ?d ?ps) = [''20'', ''x'']"
    using vals len by (simp add: list_eq_iff_nth_eq nth_Cons' less_Suc_eq numeral_2_eq_2)
  with h keys show ?thesis
    by simp
qed

subsection \<open>The cognitive-complexity summary\<close>












subsection \<open>Duplicated blocks\<close>

lemma traverse_map:
  "\<forall>x\<in>set xs. f x = Inr (g x) \<Longrightarrow> traverse f xs = Inr (map g xs)"
  by (induction xs) auto

lemma duplication_findings:
  assumes "endswith (i_rule i) ''DuplicatedBlocks''"
    and "is_quality \<or> rules = [] \<or> i_rule i \<in> set rules"
    and "lookup (i_component i) = Inr d"
    and "\<forall>g\<in>set (d_duplications d). \<forall>b\<in>set g. map_of (d_files d) (b_ref b) \<noteq> None"
  shows "issue_findings lookup build_cwd pos is_quality rules i =
    Inr (map (\<lambda>g. \<lparr> f_path = finding_path build_cwd pos (i_component i), f_rule = i_rule i,
                    f_msg = i_message i,
                    f_line = (case i_textRange i of Some (l, c) \<Rightarrow> l | None \<Rightarrow> 0),
                    f_column = (case i_textRange i of Some (l, c) \<Rightarrow> c | None \<Rightarrow> 0),
                    f_refs = map (\<lambda>b. \<lparr> ref_line = b_from b, ref_column = 0,
                        ref_msg = DuplicateBlock (b_from b) (b_from b + b_size b - 1),
                        ref_tag = None, ref_path = the (map_of (d_files d) (b_ref b)) \<rparr>) g \<rparr>)
             (d_duplications d))"
proof -
  let ?ref = "\<lambda>b. \<lparr> ref_line = b_from b, ref_column = 0,
                        ref_msg = DuplicateBlock (b_from b) (b_from b + b_size b - 1),
                        ref_tag = None, ref_path = the (map_of (d_files d) (b_ref b)) \<rparr>"
  have 1: "traverse (block_ref (d_files d)) g = Inr (map ?ref g)"
    if "g \<in> set (d_duplications d)" for g
    by (rule traverse_map)
       (use assms(4) that in \<open>fastforce simp: block_ref_def split: option.splits\<close>)
  have 2: "traverse (traverse (block_ref (d_files d))) (d_duplications d)
     = Inr (map (map ?ref) (d_duplications d))"
    by (rule traverse_map) (use 1 in auto)
  show ?thesis
    using assms(1-3) by (auto simp add: issue_findings_def 2 Let_def)
qed

text \<open>
  Claim C3, as stated, fails: a finding is appended for every duplication of the
  lookup's answer, not for every block. Here the lookup reports one duplication of two
  blocks (lines 10 to 14 of one file, lines 40 to 44 of another), and the extractor
  appends one finding, with two references.
\<close>

theorem two_blocks_one_finding:
  "issue_findings a_single_duplication ''/src'' 5 False [] a_duplication_issue =
     Inr [ \<lparr> f_path = ''src/A.java'', f_rule = ''common-java:DuplicatedBlocks'',
             f_msg = ''2 duplicated blocks of code must be removed.'', f_line = 0, f_column = 0,
             f_refs = [ \<lparr>ref_line = 10, ref_column = 0, ref_msg = DuplicateBlock 10 14,
                         ref_tag = None, ref_path = ''A.java''\<rparr>,
                        \<lparr>ref_line = 40, ref_column = 0, ref_msg = DuplicateBlock 40 44,
                         ref_tag = None, ref_path = ''B.java''\<rparr> ] \<rparr> ]"
  by (simp add: issue_findings_def a_duplication_issue_def a_single_duplication_def
      endswith_def block_ref_def finding_path_def split_on_def path_join_def startswith_def
      Let_def)

text \<open>
  Claim C3, amended. Take an issue whose rule ends in \<^verbatim>\<open>DuplicatedBlocks\<close> and for
  which the block-detail lookup is made (the issue passes the rule filter), and let the
  lookup report two duplications, every block of which refers to a file of the answer.
  Then the extractor appends exactly two findings, one for each duplication. Each has the
  path, the rule and the message of the issue; the references of a finding are made from
  the blocks of its duplication, one for each block in order: the reference's line is the
  block's start line, its message names the block's first and last line, and its path is
  the name of the file the block refers to.
\<close>

theorem two_duplications_two_findings:
  assumes "endswith (i_rule i) ''DuplicatedBlocks''"
    and "is_quality \<or> rules = [] \<or> i_rule i \<in> set rules"
    and "lookup (i_component i) = Inr d"
    and "length (d_duplications d) = 2"
    and "\<forall>g\<in>set (d_duplications d). \<forall>b\<in>set g. map_of (d_files d) (b_ref b) \<noteq> None"
  shows "\<exists>fs. issue_findings lookup build_cwd pos is_quality rules i = Inr fs
       \<and> length fs = 2
       \<and> (\<forall>k<2.
            f_path (fs ! k) = finding_path build_cwd pos (i_component i)
            \<and> f_rule (fs ! k) = i_rule i
            \<and> f_msg (fs ! k) = i_message i
            \<and> map ref_line (f_refs (fs ! k)) = map b_from (d_duplications d ! k)
            \<and> map ref_msg (f_refs (fs ! k))
                = map (\<lambda>b. DuplicateBlock (b_from b) (b_from b + b_size b - 1))
                      (d_duplications d ! k)
            \<and> map (\<lambda>r. Some (ref_path r)) (f_refs (fs ! k))
                = map (\<lambda>b. map_of (d_files d) (b_ref b)) (d_duplications d ! k))"
proof -
  have ok: "map_of (d_files d) (b_ref b) = Some (the (map_of (d_files d) (b_ref b)))"
    if "k < 2" and "b \<in> set (d_duplications d ! k)" for k b
    using assms(4,5) that by (metis nth_mem option.collapse)
  show ?thesis
    unfolding duplication_findings[where lookup = lookup and i = i and d = d, OF assms(1-3,5)]
    using assms(4) ok by (auto simp: comp_def)
qed

theorem two_duplications_two_findings_witness:
  "issue_findings a_lookup ''/src'' 5 False [] a_duplication_issue =
     Inr [ \<lparr> f_path = ''src/A.java'', f_rule = ''common-java:DuplicatedBlocks'',
             f_msg = ''2 duplicated blocks of code must be removed.'', f_line = 0, f_column = 0,
             f_refs = [ \<lparr>ref_line = 10, ref_column = 0, ref_msg = DuplicateBlock 10 14,
                         ref_tag = None, ref_path = ''A.java''\<rparr>,
                        \<lparr>ref_line = 40, ref_column = 0, ref_msg = DuplicateBlock 40 44,
                         ref_tag = None, ref_path = ''B.java''\<rparr> ] \<rparr>,
           \<lparr> f_path = ''src/A.java'', f_rule = ''common-java:DuplicatedBlocks'',
             f_msg = ''2 duplicated blocks of code must be removed.'', f_line = 0, f_column = 0,
             f_refs = [ \<lparr>ref_line = 70, ref_column = 0, ref_msg = DuplicateBlock 70 77,
                         ref_tag = None, ref_path = ''A.java''\<rparr>,
                        \<lparr>ref_line = 12, ref_column = 0, ref_msg = DuplicateBlock 12 19,
                         ref_tag = None, ref_path = ''B.java''\<rparr> ] \<rparr> ]"
proof -
  let ?d = "\<lparr> d_duplications =
             [ [\<lparr>b_from = 10, b_size = 5, b_ref = ''1''\<rparr>, \<lparr>b_from = 40, b_size = 5, b_ref = ''2''\<rparr>],
               [\<lparr>b_from = 70, b_size = 8, b_ref = ''1''\<rparr>, \<lparr>b_from = 12, b_size = 8, b_ref = ''2''\<rparr>] ],
           d_files = [(''1'', ''A.java''), (''2'', ''B.java'')] \<rparr>"
  have h: "endswith (i_rule a_duplication_issue) ''DuplicatedBlocks''"
      "False \<or> ([]::string list) = [] \<or> i_rule a_duplication_issue \<in> set []"
      "a_lookup (i_component a_duplication_issue) = Inr ?d"
      "length (d_duplications ?d) = 2"
      "\<forall>g\<in>set (d_duplications ?d). \<forall>b\<in>set g. map_of (d_files ?d) (b_ref b) \<noteq> None"
    by (simp_all add: a_duplication_issue_def a_lookup_def endswith_def)
  from two_duplications_two_findings[where lookup = a_lookup and i = a_duplication_issue
      and d = ?d and is_quality = False and rules = "[]" and build_cwd = "''/src''"
      and pos = 5, OF h]
  obtain fs where fs: "issue_findings a_lookup ''/src'' 5 False [] a_duplication_issue = Inr fs"
    and "length fs = 2"
    by blast
  have "issue_findings a_lookup ''/src'' 5 False [] a_duplication_issue =
     Inr [ \<lparr> f_path = ''src/A.java'', f_rule = ''common-java:DuplicatedBlocks'',
             f_msg = ''2 duplicated blocks of code must be removed.'', f_line = 0, f_column = 0,
             f_refs = [ \<lparr>ref_line = 10, ref_column = 0, ref_msg = DuplicateBlock 10 14,
                         ref_tag = None, ref_path = ''A.java''\<rparr>,
                        \<lparr>ref_line = 40, ref_column = 0, ref_msg = DuplicateBlock 40 44,
                         ref_tag = None, ref_path = ''B.java''\<rparr> ] \<rparr>,
           \<lparr> f_path = ''src/A.java'', f_rule = ''common-java:DuplicatedBlocks'',
             f_msg = ''2 duplicated blocks of code must be removed.'', f_line = 0, f_column = 0,
             f_refs = [ \<lparr>ref_line = 70, ref_column = 0, ref_msg = DuplicateBlock 70 77,
                         ref_tag = None, ref_path = ''A.java''\<rparr>,
                        \<lparr>ref_line = 12, ref_column = 0, ref_msg = DuplicateBlock 12 19,
                         ref_tag = None, ref_path = ''B.java''\<rparr> ] \<rparr> ]"
    by (simp add: issue_findings_def a_duplication_issue_def a_lookup_def endswith_def
        block_ref_def finding_path_def split_on_def path_join_def startswith_def Let_def)
  with fs show ?thesis
    by simp
qed

subsection \<open>The paths of the findings\<close>

lemma path_join_rel:
  "a \<noteq> [] \<Longrightarrow> \<not> endswith a ''/'' \<Longrightarrow> \<not> startswith b ''/'' \<Longrightarrow>
   path_join a b = a @ ''/'' @ b"
  by (simp add: path_join_def)

lemma startswith_append_rel:
  "b \<noteq> [] \<Longrightarrow> \<not> startswith b ''/'' \<Longrightarrow> \<not> startswith (b @ c) ''/''"
  by (cases b) (auto simp: startswith_def)

lemma not_startswith_abs:
  "startswith sd ''/'' \<Longrightarrow> \<not> startswith rel ''/'' \<Longrightarrow> \<not> startswith rel sd"
  by (cases sd; cases rel) (auto simp: startswith_def)

lemma finding_path_relative:
  assumes abs: "startswith (SOURCE_DIR env) ''/''"
    and nots: "\<not> endswith (SOURCE_DIR env) ''/''"
    and bc: "case BUILD_CWD env of None \<Rightarrow> True | Some x \<Rightarrow> \<not> startswith x ''/''"
    and c: "\<not> startswith (last (split_on CHR '':'' component)) ''/''"
  shows "\<not> startswith (finding_path (build_cwd_of env) (length (SOURCE_DIR env) + 1) component)
             ''/''
    \<and> SOURCE_DIR env @ ''/''
        @ finding_path (build_cwd_of env) (length (SOURCE_DIR env) + 1) component
       = path_join (build_cwd_of env) (last (split_on CHR '':'' component))"
proof -
  let ?c = "last (split_on CHR '':'' component)"
  let ?sd = "SOURCE_DIR env"
  have sd: "?sd \<noteq> []"
    using abs by (auto simp: startswith_def)
  show ?thesis
  proof (cases "BUILD_CWD env = None \<or> BUILD_CWD env = Some []")
    case True
    then have "build_cwd_of env = ?sd"
      by (auto simp: build_cwd_of_def)
    then show ?thesis
      using c by (simp add: finding_path_def path_join_rel[OF sd nots c])
  next
    case False
    then obtain x where x: "BUILD_CWD env = Some x" "x \<noteq> []"
      by (cases "BUILD_CWD env") auto
    then have xr: "\<not> startswith x ''/''"
      using bc by simp
    have bcw: "build_cwd_of env = ?sd @ ''/'' @ x"
      using x by (simp add: build_cwd_of_def path_join_rel[OF sd nots xr])
    have "path_join (?sd @ ''/'' @ x) ?c
            = ?sd @ ''/'' @ (if endswith (?sd @ ''/'' @ x) ''/'' then x @ ?c
                            else x @ ''/'' @ ?c)"
      using c by (simp add: path_join_def)
    moreover have "\<not> startswith (x @ ?c) ''/''" "\<not> startswith (x @ ''/'' @ ?c) ''/''"
      using x xr by (simp_all add: startswith_append_rel)
    ultimately show ?thesis
      unfolding bcw by (simp add: finding_path_def)
  qed
qed

lemma issue_findings_paths:
  "issue_findings lookup bcwd pos q rules i = Inr fs \<Longrightarrow>
   \<forall>f\<in>set fs. f_path f = finding_path bcwd pos (i_component i)"
  by (auto simp: issue_findings_def Let_def split: if_splits sum.splits)

lemma collect_paths:
  "\<forall>f\<in>set (fst (collect lookup bcwd pos q rules issues)).
     \<exists>i\<in>set issues. f_path f = finding_path bcwd pos (i_component i)"
proof (induction issues)
  case Nil
  show ?case by simp
next
  case (Cons i issues)
  show ?case
  proof (cases "issue_findings lookup bcwd pos q rules i")
    case (Inl e)
    then show ?thesis by simp
  next
    case (Inr fs)
    then show ?thesis
      using Cons.IH issue_findings_paths[OF Inr]
      by (auto split: prod.splits)
  qed
qed

lemma extract_paths:
  "extract_issues lookup env rules issues stream_end = Inr fs \<Longrightarrow>
   \<forall>f\<in>set fs. \<exists>i\<in>set issues.
      f_path f = finding_path (build_cwd_of env) (length (SOURCE_DIR env) + 1) (i_component i)"
  using collect_paths[of lookup "build_cwd_of env" "length (SOURCE_DIR env) + 1"
      "SONAR_QUALITYPROFILE env \<noteq> None \<or> SONAR_QUALITYPROFILE_TYPE env \<noteq> None" rules issues]
  by (auto simp: extract_issues_def Let_def split: prod.splits option.splits if_splits)

text \<open>
  Claim C1, as stated, fails: the extractor drops \<^verbatim>\<open>len(SOURCE_DIR) + 1\<close> characters
  whatever the source root looks like. With the source root \<^verbatim>\<open>/src/\<close>, no build
  directory set, and the component \<^verbatim>\<open>test:a/src/A.java\<close>, the joined path is
  \<^verbatim>\<open>/src/a/src/A.java\<close> and the stored path is \<^verbatim>\<open>/src/A.java\<close>, which begins with the
  source root.
\<close>

theorem path_begins_with_source_root:
  "extract_issues a_lookup
     \<lparr>SOURCE_DIR = ''/src/'', BUILD_CWD = None, SONAR_QUALITYPROFILE_TYPE = None,
      SONAR_QUALITYPROFILE = None\<rparr>
     []
     [\<lparr>i_rule = ''java:S100'', i_component = ''test:a/src/A.java'',
       i_message = ''Rename this method.'', i_textRange = Some (7, 2), i_flows = []\<rparr>]
     None
   = Inr [\<lparr>f_path = ''/src/A.java'', f_rule = ''java:S100'', f_msg = ''Rename this method.'',
           f_line = 7, f_column = 2, f_refs = []\<rparr>]
   \<and> startswith ''/src/A.java'' ''/src/''"
  by (simp add: extract_issues_def issue_findings_def build_cwd_of_def finding_path_def
      split_on_def path_join_def startswith_def endswith_def Let_def)

text \<open>
  Claim C1, amended. Let the source root be absolute and not end in a slash, let the
  build directory of the environment be unset, empty or relative, and let the component
  of every issue name a relative path after its last colon. Then no finding that the
  extractor produces has a path that begins with the source root; the path is relative to
  the source root: the source root, a slash and the stored path give the component's path
  joined onto the build directory.
\<close>

theorem finding_paths_relative_to_source_root:
  assumes "extract_issues lookup env rules issues stream_end = Inr fs"
    and "startswith (SOURCE_DIR env) ''/''"
    and "\<not> endswith (SOURCE_DIR env) ''/''"
    and "case BUILD_CWD env of None \<Rightarrow> True | Some x \<Rightarrow> \<not> startswith x ''/''"
    and "\<forall>i\<in>set issues. \<not> startswith (last (split_on CHR '':'' (i_component i))) ''/''"
  shows "\<forall>f\<in>set fs.
           \<not> startswith (f_path f) (SOURCE_DIR env)
           \<and> (\<exists>i\<in>set issues.
                 SOURCE_DIR env @ ''/'' @ f_path f
                   = path_join (build_cwd_of env) (last (split_on CHR '':'' (i_component i))))"
proof
  fix f
  assume "f \<in> set fs"
  then obtain i where i: "i \<in> set issues"
    and p: "f_path f
              = finding_path (build_cwd_of env) (length (SOURCE_DIR env) + 1) (i_component i)"
    using extract_paths[OF assms(1)] by blast
  have c: "\<not> startswith (last (split_on CHR '':'' (i_component i))) ''/''"
    using assms(5) i by blast
  note r = finding_path_relative[OF assms(2,3,4) c]
  have "\<not> startswith (f_path f) (SOURCE_DIR env)"
    using not_startswith_abs[OF assms(2)] r p by simp
  moreover have "SOURCE_DIR env @ ''/'' @ f_path f
      = path_join (build_cwd_of env) (last (split_on CHR '':'' (i_component i)))"
    using r p by simp
  ultimately show "\<not> startswith (f_path f) (SOURCE_DIR env)
           \<and> (\<exists>i\<in>set issues.
                 SOURCE_DIR env @ ''/'' @ f_path f
                   = path_join (build_cwd_of env) (last (split_on CHR '':'' (i_component i))))"
    using i by blast
qed

theorem finding_paths_relative_to_source_root_witness:
  "extract_issues a_lookup
     \<lparr>SOURCE_DIR = ''/src'', BUILD_CWD = Some ''app'', SONAR_QUALITYPROFILE_TYPE = None,
      SONAR_QUALITYPROFILE = None\<rparr>
     []
     [\<lparr>i_rule = ''java:S100'', i_component = ''test:lib/A.java'',
       i_message = ''Rename this method.'', i_textRange = Some (7, 2), i_flows = []\<rparr>]
     None
   = Inr [\<lparr>f_path = ''app/lib/A.java'', f_rule = ''java:S100'',
           f_msg = ''Rename this method.'', f_line = 7, f_column = 2, f_refs = []\<rparr>]
   \<and> \<not> startswith ''app/lib/A.java'' ''/src''"
proof -
  let ?env = "\<lparr>SOURCE_DIR = ''/src'', BUILD_CWD = Some ''app'',
      SONAR_QUALITYPROFILE_TYPE = None, SONAR_QUALITYPROFILE = None\<rparr>"
  let ?issues = "[\<lparr>i_rule = ''java:S100'', i_component = ''test:lib/A.java'',
       i_message = ''Rename this method.'', i_textRange = Some (7, 2), i_flows = []\<rparr>]"
  let ?f = "\<lparr>f_path = ''app/lib/A.java'', f_rule = ''java:S100'',
           f_msg = ''Rename this method.'', f_line = 7, f_column = 2, f_refs = []\<rparr>"
  have e: "extract_issues a_lookup ?env [] ?issues None = Inr [?f]"
    by (simp add: extract_issues_def issue_findings_def build_cwd_of_def finding_path_def
        split_on_def path_join_def startswith_def endswith_def Let_def)
  have h: "startswith (SOURCE_DIR ?env) ''/''" "\<not> endswith (SOURCE_DIR ?env) ''/''"
      "case BUILD_CWD ?env of None \<Rightarrow> True | Some x \<Rightarrow> \<not> startswith x ''/''"
      "\<forall>i\<in>set ?issues. \<not> startswith (last (split_on CHR '':'' (i_component i))) ''/''"
    by (simp_all add: startswith_def endswith_def split_on_def)
  from finding_paths_relative_to_source_root[OF e h]
  have "\<not> startswith (f_path ?f) (SOURCE_DIR ?env)"
    by simp
  with e show ?thesis
    by simp
qed

subsection \<open>Quality profiles\<close>

lemma process_rule_name:
  "process_rule cfg rules rule_list r = Inr (Some r') \<Longrightarrow>
   real_name r' = real_name r \<and> real_name r \<in> set rules"
  using process_rule_kept[of cfg rules rule_list r r']
  by (auto simp: real_name_def)

lemma process_rule_removed:
  "process_rule cfg rules rule_list r = Inr None \<Longrightarrow> real_name r \<notin> set rules"
  by (auto simp: process_rule_def split: if_splits option.splits sum.splits)

lemma process_rules_names:
  "process_rules cfg rules rule_list rs = Inr rs' \<Longrightarrow>
   map real_name rs' = filter (\<lambda>n. n \<in> set rules) (map real_name rs)"
proof (induction rs arbitrary: rs')
  case Nil
  then show ?case by simp
next
  case (Cons r rs)
  then show ?case
    by (auto split: sum.splits option.splits dest: process_rule_name process_rule_removed)
qed

lemma process_rules_allowed:
  "process_rules cfg rules rule_list rs = Inr rs' \<Longrightarrow> list_all (\<lambda>r. real_name r \<in> set rules) rs'"
proof -
  assume a: "process_rules cfg rules rule_list rs = Inr rs'"
  have "set (map real_name rs') \<subseteq> set rules"
    unfolding process_rules_names[OF a] by auto
  then show ?thesis by (auto simp: list_all_iff)
qed


lemma filter_stage_Cons_skip:
  "\<not> endswith (lower p) default_suffix \<Longrightarrow>
   filter_stage cfg rules rule_list ((l, p) # ps) files = filter_stage cfg rules rule_list ps files"
  by simp

lemma filter_stage_Cons_done:
  assumes "endswith (lower p) default_suffix"
    and "filter_stage cfg rules rule_list ((l, p) # ps) files = (files', None)"
  shows "\<exists>doc rs. files p = Some doc
      \<and> process_rules cfg rules rule_list (pr_rules doc) = Inr rs
      \<and> filter_stage cfg rules rule_list ps (files(p \<mapsto> doc\<lparr>pr_rules := rs\<rparr>)) = (files', None)"
proof (cases "files p")
  case None
  with assms show ?thesis by simp
next
  case (Some doc)
  show ?thesis
  proof (cases "process_rules cfg rules rule_list (pr_rules doc)")
    case (Inl e)
    with assms Some show ?thesis by simp
  next
    case (Inr rs)
    with assms Some show ?thesis by simp
  qed
qed

lemma publish_stage_Cons_calls:
  "set (fst (publish_stage server pk files ((l, q) # ps)))
     \<subseteq> (case files q of
          None \<Rightarrow> {}
        | Some d \<Rightarrow> {Restore q d, AddProject pk (lower (pr_language d)) (pr_name d)})
       \<union> set (fst (publish_stage server pk files ps))"
  by (auto split: option.splits sum.splits prod.splits)

lemma publish_calls:
  "Restore p doc \<in> set (fst (publish_stage server pk files ps)) \<Longrightarrow>
   (\<exists>l. (l, p) \<in> set ps) \<and> files p = Some doc"
proof (induction ps)
  case Nil
  then show ?case by simp
next
  case (Cons a ps)
  obtain l q where a: "a = (l, q)" by (cases a)
  from Cons.prems publish_stage_Cons_calls[of server pk files l q ps]
  have "Restore p doc \<in> (case files q of
          None \<Rightarrow> {}
        | Some d \<Rightarrow> {Restore q d, AddProject pk (lower (pr_language d)) (pr_name d)})
      \<or> Restore p doc \<in> set (fst (publish_stage server pk files ps))"
    unfolding a by blast
  then show ?case
  proof
    assume "Restore p doc \<in> (case files q of
          None \<Rightarrow> {}
        | Some d \<Rightarrow> {Restore q d, AddProject pk (lower (pr_language d)) (pr_name d)})"
    then have "p = q \<and> files q = Some doc"
      by (cases "files q") auto
    then show ?thesis
      using a by auto
  next
    assume "Restore p doc \<in> set (fst (publish_stage server pk files ps))"
    from Cons.IH[OF this] show ?thesis
      by auto
  qed
qed

lemma apply_overrides_idem: "apply_overrides d (apply_overrides d ps) = apply_overrides d ps"
  by (induction ps) (auto split: option.splits)

lemma process_rule_idem:
  "process_rule cfg rules rule_list r = Inr (Some r') \<Longrightarrow>
   process_rule cfg rules rule_list r' = Inr (Some r')"
  by (auto simp: process_rule_def real_name_def apply_overrides_idem
      split: if_splits option.splits sum.splits)

lemma process_rules_idem:
  "process_rules cfg rules rule_list rs = Inr rs' \<Longrightarrow>
   process_rules cfg rules rule_list rs' = Inr rs'"
proof (induction rs arbitrary: rs')
  case Nil
  then show ?case by simp
next
  case (Cons r rs)
  then show ?case
    by (auto split: sum.splits option.splits dest: process_rule_idem)
qed

text \<open>
  What the filtering loop leaves at a path: the filtered document at a kept path of the
  default suffix (filtering a document a second time, when two languages keep the same
  path, changes nothing), and the document that was there at any other path.
\<close>

lemma filter_stage_result:
  "filter_stage cfg rules rule_list ps files = (files', None) \<Longrightarrow>
   (if q \<in> snd ` set ps \<and> endswith (lower q) default_suffix
    then \<exists>kept rs. files q = Some kept
           \<and> process_rules cfg rules rule_list (pr_rules kept) = Inr rs
           \<and> files' q = Some (kept\<lparr>pr_rules := rs\<rparr>)
    else files' q = files q)"
proof (induction ps arbitrary: files)
  case Nil
  then show ?case by simp
next
  case (Cons a ps)
  obtain l p where a: "a = (l, p)" by (cases a)
  show ?case
  proof (cases "endswith (lower p) default_suffix")
    case False
    have r: "filter_stage cfg rules rule_list ps files = (files', None)"
      using Cons.prems unfolding a filter_stage_Cons_skip[OF False] .
    have "(q \<in> snd ` set (a # ps) \<and> endswith (lower q) default_suffix)
        = (q \<in> snd ` set ps \<and> endswith (lower q) default_suffix)"
      using False a by auto
    then show ?thesis
      using Cons.IH[OF r] by simp
  next
    case True
    obtain doc rs where doc: "files p = Some doc"
      and rs: "process_rules cfg rules rule_list (pr_rules doc) = Inr rs"
      and rest: "filter_stage cfg rules rule_list ps (files(p \<mapsto> doc\<lparr>pr_rules := rs\<rparr>))
                   = (files', None)"
      using filter_stage_Cons_done[OF True Cons.prems[unfolded a]] by blast
    note ih = Cons.IH[OF rest]
    show ?thesis
    proof (cases "q = p")
      case False
      then have m: "(q \<in> snd ` set (a # ps)) = (q \<in> snd ` set ps)"
        using a by auto
      have e: "(files(p \<mapsto> doc\<lparr>pr_rules := rs\<rparr>)) q = files q"
        using False by simp
      show ?thesis
        using ih unfolding m e .
    next
      case qp: True
      have "files' p = Some (doc\<lparr>pr_rules := rs\<rparr>)"
      proof (cases "p \<in> snd ` set ps")
        case False
        then show ?thesis
          using ih qp by simp
      next
        case True
        then obtain rs2 where "process_rules cfg rules rule_list rs = Inr rs2"
          and "files' p = Some (doc\<lparr>pr_rules := rs2\<rparr>)"
          using ih qp \<open>endswith (lower p) default_suffix\<close> by auto
        then show ?thesis
          using process_rules_idem[OF rs] by simp
      qed
      then show ?thesis
        using qp True a doc rs by simp
    qed
  qed
qed

lemma update_set: "(l, p) \<in> set (AList.update k v al) \<Longrightarrow> (l, p) = (k, v) \<or> (l, p) \<in> set al"
  by (induction al) (auto split: if_splits)

lemma default_stage_Cons:
  assumes "default_stage m pp (s # ps) files paths = (files1, paths1, None)"
  shows "default_stage m pp ps files paths = (files1, paths1, None)
     \<or> (\<exists>doc. files s = Some doc
          \<and> default_stage m pp ps (files(path_join pp (basename s) \<mapsto> doc))
               (AList.update (lower (hd (split_on CHR ''_'' (basename s))))
                  (path_join pp (basename s)) paths)
             = (files1, paths1, None))"
  using assms
  by (auto simp: Let_def copyfile_def split: if_splits option.splits sum.splits)

text \<open>
  The first loop, when none of the files it copies from is one it copies to: a path holds,
  when it ends, what it held before or a copy of a default document of the tool.
\<close>

lemma default_stage_files:
  assumes "default_stage m pp profs files paths = (files1, paths1, None)"
    and "\<forall>s\<in>set profs. path_join pp (basename s) \<notin> set profs"
  shows "files1 q = files q
          \<or> (\<exists>src\<in>set profs. q = path_join pp (basename src) \<and> files1 q = files src)"
  using assms
proof (induction profs arbitrary: files paths)
  case Nil
  then show ?case by simp
next
  case (Cons s ps)
  let ?d = "path_join pp (basename s)"
  let ?lang = "lower (hd (split_on CHR ''_'' (basename s)))"
  have sub: "\<forall>s\<in>set ps. path_join pp (basename s) \<notin> set ps"
    using Cons.prems(2) by auto
  from default_stage_Cons[OF Cons.prems(1)]
  show ?case
  proof
    assume r: "default_stage m pp ps files paths = (files1, paths1, None)"
    show ?thesis
      using Cons.IH[OF r sub] by auto
  next
    assume "\<exists>doc. files s = Some doc
          \<and> default_stage m pp ps (files(?d \<mapsto> doc)) (AList.update ?lang ?d paths)
             = (files1, paths1, None)"
    then obtain doc where doc: "files s = Some doc"
      and r: "default_stage m pp ps (files(?d \<mapsto> doc)) (AList.update ?lang ?d paths)
             = (files1, paths1, None)"
      by blast
    have same: "(files(?d \<mapsto> doc)) src = files src" if "src \<in> set ps" for src
      using Cons.prems(2) that by auto
    have at: "(files(?d \<mapsto> doc)) ?d = files s"
      using doc by simp
    from Cons.IH[OF r sub]
    show ?thesis
    proof
      assume e: "files1 q = (files(?d \<mapsto> doc)) q"
      show ?thesis
      proof (cases "q = ?d")
        case True
        then show ?thesis using e at by auto
      next
        case False
        then show ?thesis using e by simp
      qed
    next
      assume "\<exists>src\<in>set ps. q = path_join pp (basename src)
                \<and> files1 q = (files(?d \<mapsto> doc)) src"
      then show ?thesis
        using same by auto
    qed
  qed
qed

text \<open>
  The first loop, when none of the files it copies from is one it copies to: every path
  it adds to the kept ones holds, when it ends, a copy of a default document of the tool.
\<close>

lemma default_stage_copies:
  assumes "default_stage m pp profs files paths = (files1, paths1, None)"
    and "\<forall>s\<in>set profs. path_join pp (basename s) \<notin> set profs"
    and "(l, p) \<in> set paths1"
  shows "(l, p) \<in> set paths
          \<or> (\<exists>src\<in>set profs. p = path_join pp (basename src) \<and> files1 p = files src)"
  using assms
proof (induction profs arbitrary: files paths)
  case Nil
  then show ?case by simp
next
  case (Cons s ps)
  let ?d = "path_join pp (basename s)"
  let ?lang = "lower (hd (split_on CHR ''_'' (basename s)))"
  have sub: "\<forall>s\<in>set ps. path_join pp (basename s) \<notin> set ps"
    using Cons.prems(2) by auto
  from default_stage_Cons[OF Cons.prems(1)]
  show ?case
  proof
    assume r: "default_stage m pp ps files paths = (files1, paths1, None)"
    show ?thesis
      using Cons.IH[OF r sub Cons.prems(3)] by auto
  next
    assume "\<exists>doc. files s = Some doc
          \<and> default_stage m pp ps (files(?d \<mapsto> doc)) (AList.update ?lang ?d paths)
             = (files1, paths1, None)"
    then obtain doc where doc: "files s = Some doc"
      and r: "default_stage m pp ps (files(?d \<mapsto> doc)) (AList.update ?lang ?d paths)
             = (files1, paths1, None)"
      by blast
    have same: "(files(?d \<mapsto> doc)) src = files src" if "src \<in> set ps" for src
      using Cons.prems(2) that by auto
    have at: "(files(?d \<mapsto> doc)) ?d = files s"
      using doc by simp
    from Cons.IH[OF r sub Cons.prems(3)]
    show ?thesis
    proof
      assume "(l, p) \<in> set (AList.update ?lang ?d paths)"
      then have "(l, p) = (?lang, ?d) \<or> (l, p) \<in> set paths"
        by (rule update_set)
      then show ?thesis
      proof
        assume "(l, p) = (?lang, ?d)"
        then have p: "p = ?d" by simp
        from default_stage_files[OF r sub, of ?d]
        show ?thesis
          unfolding p using at same by auto
      next
        assume "(l, p) \<in> set paths"
        then show ?thesis by simp
      qed
    next
      assume "\<exists>src\<in>set ps. p = path_join pp (basename src)
                \<and> files1 p = (files(?d \<mapsto> doc)) src"
      then show ?thesis
        using same by auto
    qed
  qed
qed

lemma gather_defaults_only:
  assumes "SONAR_QUALITYPROFILE_TYPE env = None" and "SONAR_QUALITYPROFILE env = None"
    and "gather_profiles procs walk env work_dir languages files st = (st3, files2, paths3, None)"
  shows "default_stage (model st) (path_join work_dir ''profiles'')
           (get_dir_files walk default_suffix) files [] = (files2, paths3, None)"
  using assms
  by (auto simp: gather_profiles_def Let_def split: prod.splits option.splits)

lemma assembly_calls:
  assumes g: "gather_profiles procs walk env work_dir languages files st
                = (st3, files2, paths3, x)"
    and r: "Restore p doc \<in> set (a_calls (set_qualityprofiles cfg server procs walk env
        work_dir rules rule_list project_key languages files st))"
  shows "x = None \<and> (\<exists>files4. filter_stage cfg rules rule_list paths3 files2 = (files4, None)
      \<and> Restore p doc \<in> set (fst (publish_stage server project_key files4 paths3)))"
proof -
  obtain f4 x4 where s4: "filter_stage cfg rules rule_list paths3 files2 = (f4, x4)"
    by (cases "filter_stage cfg rules rule_list paths3 files2")
  have x: "x = None"
    using r g by (cases x) (simp_all add: set_qualityprofiles_def)
  have x4: "x4 = None"
    using r g s4 x by (cases x4) (simp_all add: set_qualityprofiles_def)
  have "Restore p doc \<in> set (fst (publish_stage server project_key f4 paths3))"
    using r g s4 x x4
    by (simp add: set_qualityprofiles_def split: prod.splits)
  then show ?thesis
    using s4 x x4 by blast
qed

lemma default_suffix_lower: "default_suffix = ''_sonarqube_profile.xml''"
  by (simp add: default_suffix_def lower_def lower_char_def)

text \<open>
  Claim C2, as stated, fails: the filtering loop skips every kept document whose path
  does not end in \<^verbatim>\<open>_SonarQube_Profile.xml\<close>. Here the user's own profile
  \<^verbatim>\<open>own/q.xml\<close> for Java holds the rules R1, R2 and R3, only R1 and R3 are allowed, and
  the document is published with R2 in it.
\<close>

theorem user_profile_published_unfiltered:
  "a_calls (set_qualityprofiles (\<lambda>s. Inr []) accepting [] []
      (no_env\<lparr>SONAR_QUALITYPROFILE := Some ''own/q.xml''\<rparr>) ''/w'' [''java:R1'', ''java:R3''] []
      ''test'' ''java,jsp'' [''/src/own/q.xml'' \<mapsto> a_profile ''mine'' [''R1'', ''R2'', ''R3'']]
      (init SQ_LOCAL_USER ''42'' False))
   = [Restore ''/src/own/q.xml'' (a_profile ''mine'' [''R1'', ''R2'', ''R3'']),
      AddProject ''test'' ''java'' ''mine'']
   \<and> \<not> within_allowed [''java:R1'', ''java:R3''] (a_profile ''mine'' [''R1'', ''R2'', ''R3''])"
  by (simp add: set_qualityprofiles_def gather_profiles_def get_dir_files_def no_env_def
      split_on_def path_join_def startswith_def endswith_def get_profile_info_def a_profile_def
      default_suffix_lower lower_def lower_char_def accepting_def call_def request_def
      within_allowed_def a_rule_def real_name_def Let_def)

text \<open>
  Claim C2, amended. Every document that the assembly publishes is the document kept at
  one of the kept paths when the gathering ends, filtered if the path ends, without regard
  to case, in \<^verbatim>\<open>_SonarQube_Profile.xml\<close> (the default documents, and a build-type
  or user document of such a name) and as it is otherwise. A filtered document differs
  from the kept one in its rules only; its rules are what the loop over the rules makes of
  the kept ones: exactly the rules with an allowed repository-qualified key, in their
  order, so every rule of the published document is allowed, and a default profile with
  the rules R1, R2, R3 is published, when R1 and R3 are allowed and R2 is not, with
  exactly R1 and R3. In a run with neither a build type nor profiles of the user, where
  no default file of the tool lies where the copies go, the kept document is a default
  document of the tool, copied to the working directory under its own file name.
\<close>

theorem published_default_profiles_within_allowed:
  assumes g: "gather_profiles procs walk env work_dir languages files st
                = (st3, files2, paths3, x)"
    and r: "Restore p doc \<in> set (a_calls (set_qualityprofiles cfg server procs walk env
        work_dir rules rule_list project_key languages files st))"
  shows "\<exists>l kept. (l, p) \<in> set paths3 \<and> files2 p = Some kept
     \<and> (if endswith (lower p) default_suffix
        then process_rules cfg rules rule_list (pr_rules kept) = Inr (pr_rules doc)
           \<and> doc = kept\<lparr>pr_rules := pr_rules doc\<rparr>
           \<and> map real_name (pr_rules doc)
               = filter (\<lambda>n. n \<in> set rules) (map real_name (pr_rules kept))
           \<and> within_allowed rules doc
        else doc = kept)
     \<and> (SONAR_QUALITYPROFILE_TYPE env = None \<and> SONAR_QUALITYPROFILE env = None
        \<and> (\<forall>s\<in>set (get_dir_files walk default_suffix).
              path_join (path_join work_dir ''profiles'') (basename s)
                \<notin> set (get_dir_files walk default_suffix))
        \<longrightarrow> (\<exists>src\<in>set (get_dir_files walk default_suffix).
               p = path_join (path_join work_dir ''profiles'') (basename src)
               \<and> files src = Some kept))"
proof -
  obtain files4 where x: "x = None"
    and f: "filter_stage cfg rules rule_list paths3 files2 = (files4, None)"
    and c: "Restore p doc \<in> set (fst (publish_stage server project_key files4 paths3))"
    using assembly_calls[OF g r] by blast
  obtain l where l: "(l, p) \<in> set paths3" and d: "files4 p = Some doc"
    using publish_calls[OF c] by blast
  have mem: "p \<in> snd ` set paths3"
    using l by force
  note res = filter_stage_result[OF f, of p]
  obtain kept where kept: "files2 p = Some kept"
    and shape: "if endswith (lower p) default_suffix
        then process_rules cfg rules rule_list (pr_rules kept) = Inr (pr_rules doc)
           \<and> doc = kept\<lparr>pr_rules := pr_rules doc\<rparr>
        else doc = kept"
  proof (cases "endswith (lower p) default_suffix")
    case True
    then obtain k rs where "files2 p = Some k"
      and "process_rules cfg rules rule_list (pr_rules k) = Inr rs"
      and "files4 p = Some (k\<lparr>pr_rules := rs\<rparr>)"
      using res mem by auto
    then show ?thesis
      using that[of k] d True by auto
  next
    case False
    then have "files2 p = Some doc"
      using res d by simp
    then show ?thesis
      using that[of doc] False by simp
  qed
  have names: "map real_name (pr_rules doc)
               = filter (\<lambda>n. n \<in> set rules) (map real_name (pr_rules kept))
           \<and> within_allowed rules doc"
    if "endswith (lower p) default_suffix"
    using shape that process_rules_names[of cfg rules rule_list "pr_rules kept" "pr_rules doc"]
      process_rules_allowed[of cfg rules rule_list "pr_rules kept" "pr_rules doc"]
    by (simp add: within_allowed_def)
  have origin: "\<exists>src\<in>set (get_dir_files walk default_suffix).
               p = path_join (path_join work_dir ''profiles'') (basename src)
               \<and> files src = Some kept"
    if t: "SONAR_QUALITYPROFILE_TYPE env = None" and o: "SONAR_QUALITYPROFILE env = None"
      and apart: "\<forall>s\<in>set (get_dir_files walk default_suffix).
              path_join (path_join work_dir ''profiles'') (basename s)
                \<notin> set (get_dir_files walk default_suffix)"
  proof -
    have ds: "default_stage (model st) (path_join work_dir ''profiles'')
           (get_dir_files walk default_suffix) files [] = (files2, paths3, None)"
      using gather_defaults_only[OF t o g[unfolded x]] .
    show ?thesis
      using default_stage_copies[OF ds apart l] kept by auto
  qed
  show ?thesis
    using l kept shape names origin by (intro exI[of _ l] exI[of _ kept]) auto
qed

theorem published_default_profiles_within_allowed_witness:
  "a_calls (set_qualityprofiles (\<lambda>s. Inr []) accepting []
      [(''/tool/profiles'', ''java_SonarQube_Profile.xml'')]
      no_env ''/w'' [''java:R1'', ''java:R3''] []
      ''test'' ''java,jsp''
      [''/tool/profiles/java_SonarQube_Profile.xml'' \<mapsto> a_profile ''tca'' [''R1'', ''R2'', ''R3'']]
      (init SQ_LOCAL_USER ''42'' False))
   = [Restore ''/w/profiles/java_SonarQube_Profile.xml'' (a_profile ''tca'' [''R1'', ''R3'']),
      AddProject ''test'' ''java'' ''tca'']
   \<and> map real_name (pr_rules (a_profile ''tca'' [''R1'', ''R3'']))
     = filter (\<lambda>n. n \<in> set [''java:R1'', ''java:R3''])
         (map real_name (pr_rules (a_profile ''tca'' [''R1'', ''R2'', ''R3''])))
   \<and> within_allowed [''java:R1'', ''java:R3''] (a_profile ''tca'' [''R1'', ''R3''])
   \<and> (\<exists>src\<in>set (get_dir_files [(''/tool/profiles'', ''java_SonarQube_Profile.xml'')]
                    default_suffix).
         [''/tool/profiles/java_SonarQube_Profile.xml'' \<mapsto> a_profile ''tca'' [''R1'', ''R2'', ''R3'']]
           src = Some (a_profile ''tca'' [''R1'', ''R2'', ''R3'']))"
proof -
  let ?walk = "[(''/tool/profiles'', ''java_SonarQube_Profile.xml'')]"
  let ?rules = "[''java:R1'', ''java:R3'']"
  let ?src = "''/tool/profiles/java_SonarQube_Profile.xml''"
  let ?dst = "''/w/profiles/java_SonarQube_Profile.xml''"
  let ?P = "a_profile ''tca'' [''R1'', ''R2'', ''R3'']"
  let ?D = "a_profile ''tca'' [''R1'', ''R3'']"
  let ?st = "init SQ_LOCAL_USER ''42'' False"
  let ?run = "set_qualityprofiles (\<lambda>s. Inr []) accepting [] ?walk no_env ''/w'' ?rules []
      ''test'' ''java,jsp'' [?src \<mapsto> ?P] ?st"
  have g: "gather_profiles [] ?walk no_env ''/w'' ''java,jsp'' [?src \<mapsto> ?P] ?st
     = (?st, [?src \<mapsto> ?P, ?dst \<mapsto> ?P], [(''java'', ?dst)], None)"
    by (simp add: gather_profiles_def get_dir_files_def no_env_def split_on_def path_join_def
        startswith_def endswith_def default_suffix_lower lower_def lower_char_def
        copyfile_def basename_def COMMON_SONAR_LANGS_def init_def Let_def)
  have run: "a_calls ?run = [Restore ?dst ?D, AddProject ''test'' ''java'' ''tca'']"
    unfolding set_qualityprofiles_def g
    by (simp add: endswith_def a_profile_def default_suffix_lower lower_def lower_char_def
        accepting_def call_def request_def process_rule_def a_rule_def real_name_def)
  have m: "Restore ?dst ?D \<in> set (a_calls ?run)"
    unfolding run by simp
  have s: "endswith (lower ?dst) default_suffix"
    by (simp add: endswith_def default_suffix_lower lower_def lower_char_def)
  have env: "SONAR_QUALITYPROFILE_TYPE no_env = None" "SONAR_QUALITYPROFILE no_env = None"
    by (simp_all add: no_env_def)
  have apart: "\<forall>s\<in>set (get_dir_files ?walk default_suffix).
      path_join (path_join ''/w'' ''profiles'') (basename s)
        \<notin> set (get_dir_files ?walk default_suffix)"
    by (simp add: get_dir_files_def path_join_def startswith_def endswith_def
        default_suffix_lower lower_def lower_char_def basename_def split_on_def)
  from published_default_profiles_within_allowed[OF g m]
  obtain l kept where k: "[?src \<mapsto> ?P, ?dst \<mapsto> ?P] ?dst = Some kept"
    and f: "map real_name (pr_rules ?D)
               = filter (\<lambda>n. n \<in> set ?rules) (map real_name (pr_rules kept))"
           "within_allowed ?rules ?D"
    and o: "\<exists>src\<in>set (get_dir_files ?walk default_suffix). [?src \<mapsto> ?P] src = Some kept"
    using s env apart by auto
  have "kept = ?P"
    using k by simp
  with run f o show ?thesis
    by simp
qed

end
